theory Spec2Isabelle
  imports Complex_Main
begin

section \<open>The property graph\<close>

text \<open>
  The Neo4j store is modelled as an explicit property graph: every node has an
  identifier, nodes are kept per label in creation order, and relationships are
  pairs of node identifiers kept per relationship type. A \<open>datetime()\<close> value
  is the reading of the backend clock, a natural number.
\<close>

type_synonym node_id = nat
type_synonym datetime = nat
type_synonym vector = "real list"

record subject_node =
  s_name :: string
  s_description :: string
  s_updated_at :: datetime

record topic_node =
  t_name :: string
  t_subject :: string
  t_description :: string
  t_difficulty_level :: int
  t_updated_at :: datetime

record question_node =
  q_text :: string
  q_year :: int
  q_paper_set :: string
  q_options :: "string list"
  q_answer :: string
  q_difficulty :: int
  q_marks :: int
  q_embedding :: vector
  q_created_at :: datetime

record chunk_node =
  c_text :: string
  c_source_file :: string
  c_source_type :: string
  c_page_number :: int
  c_chunk_index :: int
  c_embedding :: vector
  c_created_at :: datetime

record concept_node =
  k_name :: string
  k_topic :: string
  k_subject :: string
  k_explanation :: string

record user_node =
  u_id :: string
  u_created_at :: datetime

text \<open>The properties of an ATTEMPTED relationship; a property that was never set is null.\<close>

record attempt =
  first_attempt :: "datetime option"
  last_attempt :: "datetime option"
  attempt_count :: int
  correct_count :: int
  last_correct :: "datetime option"

record graph =
  next_id :: node_id
  subjects :: "(node_id \<times> subject_node) list"
  topics :: "(node_id \<times> topic_node) list"
  questions :: "(node_id \<times> question_node) list"
  chunks :: "(node_id \<times> chunk_node) list"
  concepts :: "(node_id \<times> concept_node) list"
  users :: "(node_id \<times> user_node) list"
  has_topic :: "(node_id \<times> node_id) list"
  has_question :: "(node_id \<times> node_id) list"
  explained_by :: "(node_id \<times> node_id) list"
  has_concept :: "(node_id \<times> node_id) list"
  attempted :: "((node_id \<times> node_id) \<times> attempt) list"

definition empty_graph :: graph where
  "empty_graph = \<lparr>next_id = 0, subjects = [], topics = [], questions = [], chunks = [],
     concepts = [], users = [], has_topic = [], has_question = [], explained_by = [],
     has_concept = [], attempted = []\<rparr>"

section \<open>Neo4jClient\<close>

text \<open>
  Everything outside the Python process is one state: the stored graph, the backend
  clock, the schedule of backend faults (the head says whether the next query raises;
  an exhausted schedule means no further fault) and the log of texts handed to the
  embedding model.
\<close>

datatype error = BackendError

record world =
  graph :: graph
  faults :: "bool list"
  clock :: datetime
  embed_calls :: "string list"

text \<open>
  A Cypher query is modelled by its denotation: given the clock reading and the
  graph it either fails or yields its result rows and the updated graph.
\<close>

type_synonym 'r cypher = "datetime \<Rightarrow> graph \<Rightarrow> error + ('r list \<times> graph)"

text \<open>
  \<open>run_query\<close>: runs the query in a session; an exception of the driver is printed and
  raised again. A failed query leaves the graph as it was (auto-commit transaction).
\<close>

definition next_fault :: "world \<Rightarrow> bool" where
  "next_fault w = (case faults w of [] \<Rightarrow> False | b # _ \<Rightarrow> b)"

definition run_query :: "'r cypher \<Rightarrow> world \<Rightarrow> (error + 'r list) \<times> world" where
  "run_query q w =
     (let w1 = w\<lparr>faults := tl (faults w), clock := Suc (clock w)\<rparr>
      in if next_fault w then (Inl BackendError, w1)
         else (case q (clock w) (graph w) of
                 Inl e \<Rightarrow> (Inl e, w1)
               | Inr (rows, g') \<Rightarrow> (Inr rows, w1\<lparr>graph := g'\<rparr>)))"

text \<open>The node labels that \<open>get_node_count\<close> is called with.\<close>

datatype label = Subject | Topic | Question | Chunk | Concept | User

definition count_query :: "label \<Rightarrow> nat cypher" where
  "count_query l now g = Inr ([case l of
       Subject \<Rightarrow> length (subjects g)
     | Topic \<Rightarrow> length (topics g)
     | Question \<Rightarrow> length (questions g)
     | Chunk \<Rightarrow> length (chunks g)
     | Concept \<Rightarrow> length (concepts g)
     | User \<Rightarrow> length (users g)], g)"

definition get_node_count :: "label \<Rightarrow> world \<Rightarrow> (error + nat) \<times> world" where
  "get_node_count l w =
     (case run_query (count_query l) w of
        (Inl e, w') \<Rightarrow> (Inl e, w')
      | (Inr result, w') \<Rightarrow> (Inr (case result of [] \<Rightarrow> 0 | c # _ \<Rightarrow> c), w'))"

section \<open>EmbeddingsGenerator\<close>

text \<open>
  The sentence-transformers model is external: \<open>encode\<close> either returns a vector or
  raises (\<open>None\<close>); \<open>dimension\<close> is what the model reports as its embedding dimension.
\<close>

record embedder =
  dimension :: nat
  encode :: "string \<Rightarrow> vector option"

text \<open>Python's \<open>str.isspace\<close> on the code points below 256, and \<open>str.strip\<close>.\<close>

definition is_space :: "char \<Rightarrow> bool" where
  "is_space c = ((of_char c :: nat) \<in> {9, 10, 11, 12, 13, 28, 29, 30, 31, 32, 133, 160})"

definition strip :: "string \<Rightarrow> string" where
  "strip s = rev (dropWhile is_space (rev (dropWhile is_space s)))"

definition embed_text :: "embedder \<Rightarrow> string \<Rightarrow> vector" where
  "embed_text emb text =
     (if text = [] \<or> strip text = [] then replicate (dimension emb) 0
      else (case encode emb text of
              Some embedding \<Rightarrow> embedding
            | None \<Rightarrow> replicate (dimension emb) 0))"

definition generate_embedding :: "embedder \<Rightarrow> string \<Rightarrow> world \<Rightarrow> vector \<times> world" where
  "generate_embedding emb text w =
     (embed_text emb text, w\<lparr>embed_calls := embed_calls w @ [text]\<rparr>)"

section \<open>GraphBuilder\<close>

subsection \<open>Questions\<close>

text \<open>
  A question record. The keys read with \<open>question_data['...']\<close> are fields; the keys
  read with \<open>.get\<close> are optional.
\<close>

record question_data =
  question_text :: string
  subject :: string
  topic :: string
  year :: "int option"
  paper_set :: "string option"
  options :: "string list option"
  answer :: "string option"
  difficulty :: "int option"
  marks :: "int option"

text \<open>\<open>MATCH (t:Topic {name: $topic, subject: $subject})\<close>\<close>

definition match_topic :: "string \<Rightarrow> string \<Rightarrow> graph \<Rightarrow> (node_id \<times> topic_node) list" where
  "match_topic subj tname g =
     filter (\<lambda>(i, t). t_name t = tname \<and> t_subject t = subj) (topics g)"

definition topic_query :: "string \<Rightarrow> string \<Rightarrow> (node_id \<times> topic_node) cypher" where
  "topic_query subj tname now g = Inr (match_topic subj tname g, g)"

text \<open>
  \<open>MATCH (t:Topic {...}) CREATE (q:Question {...}) MERGE (t)-[:HAS_QUESTION]->(q) RETURN q\<close>:
  one new Question, linked to the Topic, for every matched Topic row.
\<close>

fun create_question_rows ::
  "question_node \<Rightarrow> node_id list \<Rightarrow> graph \<Rightarrow> (node_id \<times> question_node) list \<times> graph" where
  "create_question_rows q [] g = ([], g)"
| "create_question_rows q (t # ts) g =
     (let i = next_id g;
          g1 = g\<lparr>next_id := Suc i, questions := questions g @ [(i, q)],
                 has_question := has_question g @ [(t, i)]\<rparr>;
          (rows, g2) = create_question_rows q ts g1
      in ((i, q) # rows, g2))"

definition create_question_query ::
  "string \<Rightarrow> string \<Rightarrow> string \<Rightarrow> int \<Rightarrow> string \<Rightarrow> string list \<Rightarrow> string \<Rightarrow> int \<Rightarrow> int \<Rightarrow> vector
     \<Rightarrow> (node_id \<times> question_node) cypher" where
  "create_question_query subj tname text yr pset opts ans diff mks embedding now g =
     Inr (create_question_rows
            \<lparr>q_text = text, q_year = yr, q_paper_set = pset, q_options = opts, q_answer = ans,
             q_difficulty = diff, q_marks = mks, q_embedding = embedding, q_created_at = now\<rparr>
            (map fst (match_topic subj tname g)) g)"

text \<open>\<open>sep.join(xs)\<close>\<close>

fun join :: "string \<Rightarrow> string list \<Rightarrow> string" where
  "join sep [] = []"
| "join sep [x] = x"
| "join sep (x # y # ys) = x @ sep @ join sep (y # ys)"

definition get_or :: "'a option \<Rightarrow> 'a \<Rightarrow> 'a" where
  "get_or v d = (case v of None \<Rightarrow> d | Some x \<Rightarrow> x)"

definition first_row :: "'r list \<Rightarrow> 'r option" where
  "first_row result = (case result of [] \<Rightarrow> None | r # _ \<Rightarrow> Some r)"

text \<open>The text that is embedded: the question, then each option on a line of its own.\<close>

definition full_text :: "question_data \<Rightarrow> string" where
  "full_text question_data =
     (if get_or (options question_data) [] \<noteq> []
      then question_text question_data @ [CHR 0x0A]
             @ join [CHR 0x0A] (get_or (options question_data) [])
      else question_text question_data)"

definition create_question ::
  "embedder \<Rightarrow> question_data \<Rightarrow> world \<Rightarrow> (error + (node_id \<times> question_node) option) \<times> world" where
  "create_question emb question_data w =
     (case run_query (topic_query (subject question_data) (topic question_data)) w of
        (Inl e, w1) \<Rightarrow> (Inl e, w1)
      | (Inr topic_result, w1) \<Rightarrow>
          if topic_result = [] then (Inr None, w1)
          else
            (let (embedding, w2) = generate_embedding emb (full_text question_data) w1
             in (case run_query
                        (create_question_query (subject question_data) (topic question_data)
                           (question_text question_data)
                           (get_or (year question_data) 0)
                           (get_or (paper_set question_data) ''unknown'')
                           (get_or (options question_data) [])
                           (get_or (answer question_data) '''')
                           (get_or (difficulty question_data) 0)
                           (get_or (marks question_data) 1)
                           embedding) w2 of
                   (Inl e, w3) \<Rightarrow> (Inl e, w3)
                 | (Inr result, w3) \<Rightarrow> (Inr (first_row result), w3))))"

text \<open>
  \<open>load_pyqs\<close>: every record is tried on its own; a \<open>None\<close> result and an exception both
  count as failed. The function returns nothing: the two counters are what its last
  line prints.
\<close>

fun load_pyqs_loop ::
  "embedder \<Rightarrow> question_data list \<Rightarrow> nat \<Rightarrow> nat \<Rightarrow> world \<Rightarrow> (nat \<times> nat) \<times> world" where
  "load_pyqs_loop emb [] success_count failed_count w = ((success_count, failed_count), w)"
| "load_pyqs_loop emb (question # rest) success_count failed_count w =
     (case create_question emb question w of
        (Inr (Some result), w') \<Rightarrow> load_pyqs_loop emb rest (success_count + 1) failed_count w'
      | (Inr None, w') \<Rightarrow> load_pyqs_loop emb rest success_count (failed_count + 1) w'
      | (Inl e, w') \<Rightarrow> load_pyqs_loop emb rest success_count (failed_count + 1) w')"

definition load_pyqs :: "embedder \<Rightarrow> question_data list \<Rightarrow> world \<Rightarrow> (nat \<times> nat) \<times> world" where
  "load_pyqs emb pyqs_data w = load_pyqs_loop emb pyqs_data 0 0 w"


subsection \<open>Subjects and topics\<close>

text \<open>
  \<open>MERGE (s:Subject {name: $name}) SET s.description = ..., s.updated_at = datetime()
  RETURN s\<close>: a Subject of that name is created when there is none; every Subject of
  that name gets the new description and time.
\<close>

definition match_subject :: "string \<Rightarrow> graph \<Rightarrow> (node_id \<times> subject_node) list" where
  "match_subject name g = filter (\<lambda>(i, s). s_name s = name) (subjects g)"

definition merge_subject_node :: "string \<Rightarrow> graph \<Rightarrow> graph" where
  "merge_subject_node name g =
     (if match_subject name g = []
      then g\<lparr>next_id := Suc (next_id g),
             subjects := subjects g @
               [(next_id g, \<lparr>s_name = name, s_description = [], s_updated_at = 0\<rparr>)]\<rparr>
      else g)"

definition set_subject :: "string \<Rightarrow> string \<Rightarrow> datetime \<Rightarrow> graph \<Rightarrow> graph" where
  "set_subject name description now g =
     g\<lparr>subjects := map (\<lambda>(i, s). if s_name s = name
                           then (i, s\<lparr>s_description := description, s_updated_at := now\<rparr>)
                           else (i, s)) (subjects g)\<rparr>"

definition create_subject_query :: "string \<Rightarrow> string \<Rightarrow> (node_id \<times> subject_node) cypher" where
  "create_subject_query name description now g =
     (let g1 = set_subject name description now (merge_subject_node name g)
      in Inr (match_subject name g1, g1))"

definition create_subject ::
  "string \<Rightarrow> string \<Rightarrow> world \<Rightarrow> (error + (node_id \<times> subject_node) option) \<times> world" where
  "create_subject name description w =
     (case run_query (create_subject_query name description) w of
        (Inl e, w') \<Rightarrow> (Inl e, w')
      | (Inr result, w') \<Rightarrow> (Inr (first_row result), w'))"

text \<open>
  \<open>MATCH (s:Subject {name: $subject_name})
  MERGE (t:Topic {name: $topic_name, subject: $subject_name})
  SET t.description = ..., t.difficulty_level = ..., t.updated_at = datetime()
  MERGE (s)-[:HAS_TOPIC]->(t) RETURN t\<close>: nothing happens without a matching Subject;
  otherwise the Topic is created when there is none, every matching Topic is updated,
  and each missing HAS_TOPIC relationship from a matched Subject is added.
\<close>

definition merge_topic_node :: "string \<Rightarrow> string \<Rightarrow> graph \<Rightarrow> graph" where
  "merge_topic_node subj tname g =
     (if match_topic subj tname g = []
      then g\<lparr>next_id := Suc (next_id g),
             topics := topics g @
               [(next_id g, \<lparr>t_name = tname, t_subject = subj, t_description = [],
                              t_difficulty_level = 0, t_updated_at = 0\<rparr>)]\<rparr>
      else g)"

definition set_topic :: "string \<Rightarrow> string \<Rightarrow> string \<Rightarrow> int \<Rightarrow> datetime \<Rightarrow> graph \<Rightarrow> graph" where
  "set_topic subj tname description diff now g =
     g\<lparr>topics := map (\<lambda>(i, t). if t_name t = tname \<and> t_subject t = subj
                         then (i, t\<lparr>t_description := description,
                                    t_difficulty_level := diff, t_updated_at := now\<rparr>)
                         else (i, t)) (topics g)\<rparr>"

fun merge_edges :: "(node_id \<times> node_id) list \<Rightarrow> (node_id \<times> node_id) list
    \<Rightarrow> (node_id \<times> node_id) list" where
  "merge_edges [] es = es"
| "merge_edges (e # rest) es = merge_edges rest (if e \<in> set es then es else es @ [e])"

definition create_topic_query ::
  "string \<Rightarrow> string \<Rightarrow> string \<Rightarrow> int \<Rightarrow> (node_id \<times> topic_node) cypher" where
  "create_topic_query subj tname description diff now g =
     (let ss = map fst (match_subject subj g)
      in if ss = [] then Inr ([], g)
         else
           (let g1 = set_topic subj tname description diff now (merge_topic_node subj tname g);
                ts = match_topic subj tname g1;
                g2 = g1\<lparr>has_topic :=
                         merge_edges (concat (map (\<lambda>s. map (\<lambda>t. (s, fst t)) ts) ss))
                           (has_topic g1)\<rparr>
            in Inr (concat (map (\<lambda>s. ts) ss), g2)))"

definition create_topic ::
  "string \<Rightarrow> string \<Rightarrow> string \<Rightarrow> int \<Rightarrow> world
     \<Rightarrow> (error + (node_id \<times> topic_node) option) \<times> world" where
  "create_topic subject_name topic_name description diff w =
     (case run_query (create_topic_query subject_name topic_name description diff) w of
        (Inl e, w') \<Rightarrow> (Inl e, w')
      | (Inr result, w') \<Rightarrow> (Inr (first_row result), w'))"

text \<open>
  \<open>get_graph_statistics\<close> asks for the five node counts in turn; any of the queries
  may raise.
\<close>

record statistics =
  stat_subjects :: nat
  stat_topics :: nat
  stat_questions :: nat
  stat_chunks :: nat
  stat_concepts :: nat

definition get_graph_statistics :: "world \<Rightarrow> (error + statistics) \<times> world" where
  "get_graph_statistics w =
     (case get_node_count Subject w of
        (Inl e, w1) \<Rightarrow> (Inl e, w1)
      | (Inr n1, w1) \<Rightarrow>
     (case get_node_count Topic w1 of
        (Inl e, w2) \<Rightarrow> (Inl e, w2)
      | (Inr n2, w2) \<Rightarrow>
     (case get_node_count Question w2 of
        (Inl e, w3) \<Rightarrow> (Inl e, w3)
      | (Inr n3, w3) \<Rightarrow>
     (case get_node_count Chunk w3 of
        (Inl e, w4) \<Rightarrow> (Inl e, w4)
      | (Inr n4, w4) \<Rightarrow>
     (case get_node_count Concept w4 of
        (Inl e, w5) \<Rightarrow> (Inl e, w5)
      | (Inr n5, w5) \<Rightarrow>
          (Inr \<lparr>stat_subjects = n1, stat_topics = n2, stat_questions = n3,
                stat_chunks = n4, stat_concepts = n5\<rparr>, w5))))))"

text \<open>
  The syllabus: a dictionary from subject name to its description and topic list,
  kept as the list of its items in iteration order. \<open>topic['name']\<close> is a field, the
  keys read with \<open>.get\<close> are optional.
\<close>

record topic_info =
  ti_name :: string
  ti_description :: "string option"
  ti_difficulty :: "int option"

record subject_info =
  si_description :: "string option"
  si_topics :: "topic_info list option"

fun load_topics :: "string \<Rightarrow> topic_info list \<Rightarrow> world \<Rightarrow> (error + unit) \<times> world" where
  "load_topics subject_name [] w = (Inr (), w)"
| "load_topics subject_name (tp # rest) w =
     (case create_topic subject_name (ti_name tp) (get_or (ti_description tp) [])
             (get_or (ti_difficulty tp) 1) w of
        (Inl e, w') \<Rightarrow> (Inl e, w')
      | (Inr r, w') \<Rightarrow> load_topics subject_name rest w')"

fun load_subjects :: "(string \<times> subject_info) list \<Rightarrow> world \<Rightarrow> (error + unit) \<times> world" where
  "load_subjects [] w = (Inr (), w)"
| "load_subjects ((subject_name, info) # rest) w =
     (case create_subject subject_name (get_or (si_description info) []) w of
        (Inl e, w1) \<Rightarrow> (Inl e, w1)
      | (Inr r, w1) \<Rightarrow>
          (case load_topics subject_name (get_or (si_topics info) []) w1 of
             (Inl e, w2) \<Rightarrow> (Inl e, w2)
           | (Inr u, w2) \<Rightarrow> load_subjects rest w2))"

text \<open>
  \<open>load_syllabus\<close> returns nothing; the statistics are what its last line prints
  (the subject and the topic count).
\<close>

definition load_syllabus ::
  "(string \<times> subject_info) list \<Rightarrow> world \<Rightarrow> (error + statistics) \<times> world" where
  "load_syllabus syllabus_data w =
     (case load_subjects syllabus_data w of
        (Inl e, w1) \<Rightarrow> (Inl e, w1)
      | (Inr u, w1) \<Rightarrow> get_graph_statistics w1)"

subsection \<open>Textbook chunks\<close>

text \<open>
  A chunk record; \<open>ch_embedding = None\<close> is a record without the key
  \<open>'embedding'\<close> (or with the value \<open>None\<close>).
\<close>

record chunk_data =
  ch_text :: string
  ch_subject :: string
  ch_topic :: string
  ch_source_file :: "string option"
  ch_page_number :: "int option"
  ch_chunk_index :: "int option"
  ch_embedding :: "vector option"

text \<open>
  \<open>MATCH (t:Topic {...}) CREATE (c:Chunk {...}) MERGE (t)-[:EXPLAINED_BY]->(c) RETURN c\<close>
\<close>

fun create_chunk_rows ::
  "chunk_node \<Rightarrow> node_id list \<Rightarrow> graph \<Rightarrow> (node_id \<times> chunk_node) list \<times> graph" where
  "create_chunk_rows c [] g = ([], g)"
| "create_chunk_rows c (t # ts) g =
     (let i = next_id g;
          g1 = g\<lparr>next_id := Suc i, chunks := chunks g @ [(i, c)],
                 explained_by := explained_by g @ [(t, i)]\<rparr>;
          (rows, g2) = create_chunk_rows c ts g1
      in ((i, c) # rows, g2))"

definition create_chunk_query ::
  "string \<Rightarrow> string \<Rightarrow> string \<Rightarrow> string \<Rightarrow> int \<Rightarrow> int \<Rightarrow> vector
     \<Rightarrow> (node_id \<times> chunk_node) cypher" where
  "create_chunk_query subj tname text source_file page_number chunk_index embedding now g =
     Inr (create_chunk_rows
            \<lparr>c_text = text, c_source_file = source_file, c_source_type = ''textbook'',
             c_page_number = page_number, c_chunk_index = chunk_index,
             c_embedding = embedding, c_created_at = now\<rparr>
            (map fst (match_topic subj tname g)) g)"

text \<open>
  \<open>create_chunk\<close>: the embedding is generated when the key is missing or its value is
  falsy (\<open>None\<close> or the empty list), before the topic is looked up. The source stores
  the generated vector back into the caller's dictionary; the model keeps it in
  \<open>embedding\<close>.
\<close>

definition create_chunk ::
  "embedder \<Rightarrow> chunk_data \<Rightarrow> world \<Rightarrow> (error + (node_id \<times> chunk_node) option) \<times> world" where
  "create_chunk emb chunk_data w =
     (let (embedding, w0) =
            (case ch_embedding chunk_data of
               None \<Rightarrow> generate_embedding emb (ch_text chunk_data) w
             | Some v \<Rightarrow> if v = [] then generate_embedding emb (ch_text chunk_data) w
                          else (v, w))
      in case run_query (topic_query (ch_subject chunk_data) (ch_topic chunk_data)) w0 of
           (Inl e, w1) \<Rightarrow> (Inl e, w1)
         | (Inr topic_result, w1) \<Rightarrow>
             if topic_result = [] then (Inr None, w1)
             else
               (case run_query
                       (create_chunk_query (ch_subject chunk_data) (ch_topic chunk_data)
                          (ch_text chunk_data)
                          (get_or (ch_source_file chunk_data) ''unknown'')
                          (get_or (ch_page_number chunk_data) 0)
                          (get_or (ch_chunk_index chunk_data) 0)
                          embedding) w1 of
                  (Inl e, w2) \<Rightarrow> (Inl e, w2)
                | (Inr result, w2) \<Rightarrow> (Inr (first_row result), w2)))"

section \<open>HybridRetriever\<close>

text \<open>\<open>ORDER BY\<close>: a stable insertion sort by a "comes no later than" relation.\<close>

fun insort_by :: "('a \<Rightarrow> 'a \<Rightarrow> bool) \<Rightarrow> 'a \<Rightarrow> 'a list \<Rightarrow> 'a list" where
  "insort_by le x [] = [x]"
| "insort_by le x (y # ys) = (if le x y then x # y # ys else y # insort_by le x ys)"

definition order_by :: "('a \<Rightarrow> 'a \<Rightarrow> bool) \<Rightarrow> 'a list \<Rightarrow> 'a list" where
  "order_by le xs = foldr (insort_by le) xs []"

text \<open>\<open>LIMIT $limit\<close>: a negative limit is rejected by the backend.\<close>

definition limit_rows :: "int \<Rightarrow> 'a list \<Rightarrow> error + 'a list" where
  "limit_rows n rows = (if n < 0 then Inl BackendError else Inr (take (nat n) rows))"

text \<open>\<open>collect(DISTINCT ...)\<close>: the values in order of first appearance.\<close>

fun collect_distinct :: "'a list \<Rightarrow> 'a list" where
  "collect_distinct [] = []"
| "collect_distinct (x # xs) = x # collect_distinct (filter (\<lambda>y. y \<noteq> x) xs)"

subsection \<open>Question retrieval\<close>

text \<open>
  \<open>MATCH (t:Topic {name: $topic, subject: $subject})-[:HAS_QUESTION]->(q:Question)\<close>:
  the Question nodes reached from the matching Topics, in traversal order.
\<close>

definition topic_questions :: "string \<Rightarrow> string \<Rightarrow> graph \<Rightarrow> (node_id \<times> question_node) list" where
  "topic_questions subj tname g =
     concat (map (\<lambda>(tid, t).
        concat (map (\<lambda>(a, b). if a = tid then filter (\<lambda>(qid, q). qid = b) (questions g) else [])
                  (has_question g)))
        (match_topic subj tname g))"

text \<open>A returned row; \<open>r_paper_set\<close> is only projected by \<open>get_questions_by_topic\<close>.\<close>

record question_row =
  r_question :: string
  r_options :: "string list"
  r_answer :: string
  r_year :: int
  r_difficulty :: int
  r_marks :: int
  r_paper_set :: "string option"

definition truthy_int :: "int option \<Rightarrow> bool" where
  "truthy_int v = (case v of None \<Rightarrow> False | Some n \<Rightarrow> n \<noteq> 0)"

definition questions_by_topic_query ::
  "string \<Rightarrow> string \<Rightarrow> int option \<Rightarrow> int option \<Rightarrow> int \<Rightarrow> question_row cypher" where
  "questions_by_topic_query subj tname yr diff lmt now g =
     (let matched = map snd (topic_questions subj tname g);
          by_year = (if truthy_int yr then filter (\<lambda>q. Some (q_year q) = yr) matched
                     else matched);
          by_difficulty = (if diff \<noteq> None then filter (\<lambda>q. Some (q_difficulty q) = diff) by_year
                           else by_year);
          rows = map (\<lambda>q. \<lparr>r_question = q_text q, r_options = q_options q,
                             r_answer = q_answer q, r_year = q_year q,
                             r_difficulty = q_difficulty q, r_marks = q_marks q,
                             r_paper_set = Some (q_paper_set q)\<rparr>) by_difficulty;
          ordered = order_by (\<lambda>a b. r_year a > r_year b \<or>
                        (r_year a = r_year b \<and> r_difficulty a \<le> r_difficulty b)) rows
      in case limit_rows lmt ordered of
           Inl e \<Rightarrow> Inl e
         | Inr limited \<Rightarrow> Inr (limited, g))"

definition get_questions_by_topic ::
  "string \<Rightarrow> string \<Rightarrow> int option \<Rightarrow> int option \<Rightarrow> int \<Rightarrow> world
     \<Rightarrow> question_row list \<times> world" where
  "get_questions_by_topic subj tname yr diff lmt w =
     (case run_query (questions_by_topic_query subj tname yr diff lmt) w of
        (Inl e, w') \<Rightarrow> ([], w')
      | (Inr results, w') \<Rightarrow> (results, w'))"

definition questions_by_difficulty_query :: "string \<Rightarrow> string \<Rightarrow> bool \<Rightarrow> question_row cypher" where
  "questions_by_difficulty_query subj tname ascending now g =
     (let rows = map (\<lambda>(qid, q). \<lparr>r_question = q_text q, r_options = q_options q,
                             r_answer = q_answer q, r_year = q_year q,
                             r_difficulty = q_difficulty q, r_marks = q_marks q,
                             r_paper_set = None\<rparr>) (topic_questions subj tname g)
      in Inr (order_by (\<lambda>a b.
                 (if ascending then r_difficulty a < r_difficulty b
                  else r_difficulty a > r_difficulty b) \<or>
                 (r_difficulty a = r_difficulty b \<and> r_year a \<ge> r_year b)) rows, g))"

definition get_questions_ordered_by_difficulty ::
  "string \<Rightarrow> string \<Rightarrow> bool \<Rightarrow> world \<Rightarrow> question_row list \<times> world" where
  "get_questions_ordered_by_difficulty subj tname ascending w =
     (case run_query (questions_by_difficulty_query subj tname ascending) w of
        (Inl e, w') \<Rightarrow> ([], w')
      | (Inr results, w') \<Rightarrow> (results, w'))"

subsection \<open>Graph traversal search\<close>

text \<open>
  \<open>MATCH (s:Subject {name: $subject})-[:HAS_TOPIC]->(t:Topic {name: $topic})\<close>: the
  Topic nodes of that name reached from a Subject of that name.
\<close>

definition subject_topics :: "string \<Rightarrow> string \<Rightarrow> graph \<Rightarrow> (node_id \<times> topic_node) list" where
  "subject_topics subj tname g =
     concat (map (\<lambda>(sid, s).
        concat (map (\<lambda>(a, b). if a = sid
                       then filter (\<lambda>(tid, t). tid = b \<and> t_name t = tname) (topics g)
                       else [])
                  (has_topic g)))
        (match_subject subj g))"

text \<open>The nodes of one label that a relationship type links from the given node.\<close>

definition linked :: "(node_id \<times> node_id) list \<Rightarrow> (node_id \<times> 'n) list \<Rightarrow> node_id
    \<Rightarrow> (node_id \<times> 'n) list" where
  "linked edges nodes src =
     concat (map (\<lambda>(a, b). if a = src then filter (\<lambda>(i, n). i = b) nodes else []) edges)"

text \<open>
  The result row of \<open>graph_search\<close>; \<open>ctx_concepts\<close> is only there when concepts
  are included.
\<close>

record topic_context =
  ctx_topic :: string
  ctx_description :: string
  ctx_difficulty :: int
  sample_chunks :: "string list"
  question_count :: nat
  ctx_concepts :: "string list option"

text \<open>
  The rows are grouped by the three non-aggregated columns; each group collects the
  distinct chunk texts (the first five are kept), counts the distinct questions and
  collects the distinct concept names over its Topics.
\<close>

definition group_key :: "node_id \<times> topic_node \<Rightarrow> string \<times> string \<times> int" where
  "group_key row = (t_name (snd row), t_description (snd row), t_difficulty_level (snd row))"

definition graph_search_query :: "string \<Rightarrow> string \<Rightarrow> bool \<Rightarrow> topic_context cypher" where
  "graph_search_query subj tname include_concepts now g =
     (let matched = subject_topics subj tname g
      in Inr (map (\<lambda>key.
                 (let tids = map fst (filter (\<lambda>row. group_key row = key) matched)
                  in \<lparr>ctx_topic = fst key,
                      ctx_description = fst (snd key),
                      ctx_difficulty = snd (snd key),
                      sample_chunks =
                        take 5 (collect_distinct (map (\<lambda>(i, c). c_text c)
                           (concat (map (linked (explained_by g) (chunks g)) tids)))),
                      question_count =
                        length (collect_distinct (map fst
                           (concat (map (linked (has_question g) (questions g)) tids)))),
                      ctx_concepts =
                        (if include_concepts
                         then Some (collect_distinct (map (\<lambda>(i, k). k_name k)
                                (concat (map (linked (has_concept g) (concepts g)) tids))))
                         else None)\<rparr>))
               (collect_distinct (map group_key matched)), g))"

text \<open>
  \<open>graph_search\<close> returns the first row, or the empty dictionary (\<open>None\<close>) when there
  is no row or the query raised.
\<close>

definition graph_search ::
  "string \<Rightarrow> string \<Rightarrow> bool \<Rightarrow> world \<Rightarrow> topic_context option \<times> world" where
  "graph_search subj tname include_concepts w =
     (case run_query (graph_search_query subj tname include_concepts) w of
        (Inl e, w') \<Rightarrow> (None, w')
      | (Inr results, w') \<Rightarrow> (first_row results, w'))"

subsection \<open>Vector similarity search\<close>

text \<open>
  The vector index is a primitive of the backend: \<open>db.index.vector.queryNodes\<close> is a
  parameter that yields Chunk identifiers with their scores, or fails.
\<close>

type_synonym vector_index = "graph \<Rightarrow> int \<Rightarrow> vector \<Rightarrow> error + (node_id \<times> real) list"





section \<open>ProgressTracker\<close>

text \<open>\<open>MERGE (u:User {id: 'default_user'}) SET u.created_at = COALESCE(u.created_at, datetime())\<close>\<close>

definition ensure_user_query :: "(node_id \<times> user_node) cypher" where
  "ensure_user_query now g =
     (let g1 = (if filter (\<lambda>(i, u). u_id u = ''default_user'') (users g) = []
                then g\<lparr>next_id := Suc (next_id g),
                       users := users g @
                         [(next_id g, \<lparr>u_id = ''default_user'', u_created_at = now\<rparr>)]\<rparr>
                else g)
      in Inr (filter (\<lambda>(i, u). u_id u = ''default_user'') (users g1), g1))"

definition ensure_progress_nodes :: "world \<Rightarrow> (error + unit) \<times> world" where
  "ensure_progress_nodes w =
     (case run_query ensure_user_query w of
        (Inl e, w') \<Rightarrow> (Inl e, w')
      | (Inr result, w') \<Rightarrow> (Inr (), w'))"

text \<open>
  The three \<open>MATCH\<close> clauses of \<open>record_attempt\<close>: the (User, Question) pairs for the
  default user, the Topic and the Questions with that text linked from it.
\<close>

definition attempt_rows :: "string \<Rightarrow> string \<Rightarrow> string \<Rightarrow> graph \<Rightarrow> (node_id \<times> node_id) list" where
  "attempt_rows subj tname text g =
     concat (map (\<lambda>(uid, u).
        map (\<lambda>(qid, q). (uid, qid))
          (filter (\<lambda>(qid, q). q_text q = text) (topic_questions subj tname g)))
        (filter (\<lambda>(i, u). u_id u = ''default_user'') (users g)))"

text \<open>\<open>ON CREATE SET\<close> and \<open>ON MATCH SET\<close> of the \<open>MERGE (u)-[a:ATTEMPTED]->(q)\<close>.\<close>

definition on_create :: "bool \<Rightarrow> datetime \<Rightarrow> attempt" where
  "on_create is_correct now =
     \<lparr>first_attempt = Some now, last_attempt = None, attempt_count = 1,
      correct_count = (if is_correct then 1 else 0),
      last_correct = (if is_correct then Some now else None)\<rparr>"

definition on_match :: "bool \<Rightarrow> datetime \<Rightarrow> attempt \<Rightarrow> attempt" where
  "on_match is_correct now a =
     a\<lparr>last_attempt := Some now,
       attempt_count := attempt_count a + 1,
       correct_count := correct_count a + (if is_correct then 1 else 0),
       last_correct := (if is_correct then Some now else last_correct a)\<rparr>"

definition merge_attempted ::
  "bool \<Rightarrow> datetime \<Rightarrow> node_id \<times> node_id \<Rightarrow> ((node_id \<times> node_id) \<times> attempt) list
     \<Rightarrow> ((node_id \<times> node_id) \<times> attempt) list" where
  "merge_attempted is_correct now key rels =
     (if filter (\<lambda>(k, a). k = key) rels = []
      then rels @ [(key, on_create is_correct now)]
      else map (\<lambda>(k, a). if k = key then (k, on_match is_correct now a) else (k, a)) rels)"

definition record_attempt_query ::
  "string \<Rightarrow> string \<Rightarrow> string \<Rightarrow> bool \<Rightarrow> ((node_id \<times> node_id) \<times> attempt) cypher" where
  "record_attempt_query subj tname text is_correct now g =
     (let rows = attempt_rows subj tname text g;
          rels = foldl (\<lambda>rels key. merge_attempted is_correct now key rels) (attempted g) rows
      in Inr (concat (map (\<lambda>key. filter (\<lambda>(k, a). k = key) rels) rows),
              g\<lparr>attempted := rels\<rparr>))"

text \<open>\<open>record_attempt\<close> returns nothing; an exception of the query is printed and dropped.\<close>

definition record_attempt :: "string \<Rightarrow> string \<Rightarrow> string \<Rightarrow> bool \<Rightarrow> world \<Rightarrow> world" where
  "record_attempt subj tname text is_correct w =
     snd (run_query (record_attempt_query subj tname text is_correct) w)"

section \<open>Predicates and example data for the properties\<close>

text \<open>A world whose backend raises no fault from now on.\<close>

definition healthy :: "world \<Rightarrow> bool" where
  "healthy w = (True \<notin> set (faults w))"

text \<open>
  The uniqueness constraint \<open>topic_unique\<close> that the database setup creates:
  no two Topic nodes share name and subject.
\<close>

definition topic_unique :: "graph \<Rightarrow> bool" where
  "topic_unique g = distinct (map (\<lambda>(i, t). (t_name t, t_subject t)) (topics g))"


text \<open>
  Example data: a graph holding the subject OS with the topic Deadlocks, a record for
  that topic and a record for a topic that was never loaded.
\<close>

definition ex_graph :: graph where
  "ex_graph = empty_graph\<lparr>next_id := 2,
     subjects := [(0, \<lparr>s_name = ''OS'', s_description = ''Operating systems'', s_updated_at = 1\<rparr>)],
     topics := [(1, \<lparr>t_name = ''Deadlocks'', t_subject = ''OS'',
                     t_description = ''Deadlock handling'', t_difficulty_level = 3,
                     t_updated_at = 2\<rparr>)],
     has_topic := [(0, 1)]\<rparr>"

definition ex_world :: world where
  "ex_world = \<lparr>graph = ex_graph, faults = [], clock = 10, embed_calls = []\<rparr>"

definition ex_embedder :: embedder where
  "ex_embedder = \<lparr>dimension = 384,
     encode = (\<lambda>text. if text = ''fail'' then None else Some (replicate 384 1))\<rparr>"

definition ex_question :: question_data where
  "ex_question = \<lparr>question_text = ''What is a deadlock?'', subject = ''OS'',
     topic = ''Deadlocks'', year = Some 2023, paper_set = None, options = None,
     answer = None, difficulty = None, marks = None\<rparr>"

definition ex_orphan_question :: question_data where
  "ex_orphan_question = ex_question\<lparr>question_text := ''What is paging?'', topic := ''Paging''\<rparr>"

text \<open>
  The embedding model keeps its word: a vector it returns has the dimension it reports.
\<close>

definition model_ok :: "embedder \<Rightarrow> bool" where
  "model_ok emb = (\<forall>text v. encode emb text = Some v \<longrightarrow> length v = dimension emb)"

text \<open>The nodes a call added: those stored after the nodes that were there before.\<close>

definition created_questions :: "world \<Rightarrow> world \<Rightarrow> (node_id \<times> question_node) list" where
  "created_questions w w' = drop (length (questions (graph w))) (questions (graph w'))"

definition created_chunks :: "world \<Rightarrow> world \<Rightarrow> (node_id \<times> chunk_node) list" where
  "created_chunks w w' = drop (length (chunks (graph w))) (chunks (graph w'))"

text \<open>
  Example chunk records for the topic Deadlocks: without an embedding, with a
  one-element embedding and with an empty one.
\<close>

definition ex_chunk :: chunk_data where
  "ex_chunk = \<lparr>ch_text = ''A deadlock is a circular wait.'', ch_subject = ''OS'',
     ch_topic = ''Deadlocks'', ch_source_file = Some ''os.pdf'', ch_page_number = Some 7,
     ch_chunk_index = Some 0, ch_embedding = None\<rparr>"

definition ex_chunk_short :: chunk_data where
  "ex_chunk_short = ex_chunk\<lparr>ch_embedding := Some [1]\<rparr>"

definition ex_chunk_empty :: chunk_data where
  "ex_chunk_empty = ex_chunk\<lparr>ch_embedding := Some []\<rparr>"

text \<open>The vector \<open>create_chunk\<close> hands to the Chunk it creates.\<close>

definition chunk_embedding :: "embedder \<Rightarrow> chunk_data \<Rightarrow> vector" where
  "chunk_embedding emb cd =
     (case ch_embedding cd of
        None \<Rightarrow> embed_text emb (ch_text cd)
      | Some v \<Rightarrow> if v = [] then embed_text emb (ch_text cd) else v)"

text \<open>
  The example graph with three questions under the topic Deadlocks, and the default
  user.
\<close>

definition ex_question_node :: "string \<Rightarrow> int \<Rightarrow> int \<Rightarrow> question_node" where
  "ex_question_node text yr diff =
     \<lparr>q_text = text, q_year = yr, q_paper_set = ''set1'', q_options = [], q_answer = ''A'',
      q_difficulty = diff, q_marks = 1, q_embedding = [], q_created_at = 3\<rparr>"

definition ex_graph_q :: graph where
  "ex_graph_q = ex_graph\<lparr>next_id := 6,
     questions := [(2, ex_question_node ''Q1'' 2020 0), (3, ex_question_node ''Q2'' 2021 1),
                   (4, ex_question_node ''Q3'' 2022 0)],
     users := [(5, \<lparr>u_id = ''default_user'', u_created_at = 4\<rparr>)],
     has_question := [(1, 2), (1, 3), (1, 4)]\<rparr>"

definition ex_world_q :: world where
  "ex_world_q = ex_world\<lparr>graph := ex_graph_q\<rparr>"

text \<open>The example world with a backend that fails the next query.\<close>

definition ex_world_down :: world where
  "ex_world_down = ex_world\<lparr>faults := [True]\<rparr>"

text \<open>A vector index without entries.\<close>

definition ex_index :: vector_index where
  "ex_index g top_k query_embedding = Inr []"

text \<open>
  The order the difficulty listing promises: the difficulty never goes down
  (ascending) or never goes up (descending), and among equal difficulties the year
  never goes up.
\<close>

definition difficulty_order :: "bool \<Rightarrow> question_row \<Rightarrow> question_row \<Rightarrow> bool" where
  "difficulty_order ascending a b =
     ((if ascending then r_difficulty a \<le> r_difficulty b else r_difficulty a \<ge> r_difficulty b)
      \<and> (r_difficulty a = r_difficulty b \<longrightarrow> r_year a \<ge> r_year b))"

text \<open>The ATTEMPTED relationships between one user and one question.\<close>

definition attempts_of :: "node_id \<times> node_id \<Rightarrow> ((node_id \<times> node_id) \<times> attempt) list \<Rightarrow> attempt list" where
  "attempts_of key rels = map snd (filter (\<lambda>(k, a). k = key) rels)"


text \<open>The graph after the query of \<open>create_subject\<close> and after the query of \<open>create_topic\<close>.\<close>

definition subject_step :: "string \<Rightarrow> string \<Rightarrow> datetime \<Rightarrow> graph \<Rightarrow> graph" where
  "subject_step name description now g =
     (case create_subject_query name description now g of Inl e \<Rightarrow> g | Inr (rows, g') \<Rightarrow> g')"

definition topic_step :: "string \<Rightarrow> string \<Rightarrow> string \<Rightarrow> int \<Rightarrow> datetime \<Rightarrow> graph \<Rightarrow> graph" where
  "topic_step subj tname description diff now g =
     (case create_topic_query subj tname description diff now g of
        Inl e \<Rightarrow> g | Inr (rows, g') \<Rightarrow> g')"

text \<open>
  A Subject of that name is there; a Topic is loaded when its Subject and the Topic
  are there and every such Subject is linked to every such Topic.
\<close>

definition subject_ids :: "graph \<Rightarrow> string \<Rightarrow> node_id list" where
  "subject_ids g name = map fst (match_subject name g)"

definition topic_ids :: "graph \<Rightarrow> string \<Rightarrow> string \<Rightarrow> node_id list" where
  "topic_ids g subj tname = map fst (match_topic subj tname g)"







text \<open>An empty store with a working backend, and a one-topic syllabus.\<close>

definition ex_world_empty :: world where
  "ex_world_empty = \<lparr>graph = empty_graph, faults = [], clock = 0, embed_calls = []\<rparr>"

definition ex_syllabus :: "(string \<times> subject_info) list" where
  "ex_syllabus = [(''Algorithms'', \<lparr>si_description = None,
      si_topics = Some [\<lparr>ti_name = ''Sorting'', ti_description = None,
                          ti_difficulty = Some 2\<rparr>]\<rparr>)]"

text \<open>
  A well-formed store: node identifiers are not shared and lie below the next free
  one, Topic keys are unique, and no HAS_QUESTION relationship is stored twice or
  points at an identifier that is still free.
\<close>

definition node_ids :: "graph \<Rightarrow> node_id list" where
  "node_ids g = map fst (subjects g) @ map fst (topics g) @ map fst (questions g)
     @ map fst (chunks g) @ map fst (concepts g) @ map fst (users g)"

definition wf_graph :: "graph \<Rightarrow> bool" where
  "wf_graph g =
     (distinct (node_ids g) \<and> (\<forall>i \<in> set (node_ids g). i < next_id g)
      \<and> topic_unique g \<and> distinct (has_question g)
      \<and> (\<forall>(a, b) \<in> set (has_question g). b < next_id g))"

section \<open>Properties\<close>

lemmas ex_defs = ex_world_def ex_graph_def empty_graph_def ex_question_def
  ex_orphan_question_def ex_embedder_def ex_chunk_def ex_chunk_short_def ex_chunk_empty_def
  ex_question_node_def ex_graph_q_def ex_world_q_def ex_world_down_def ex_index_def
  ex_world_empty_def ex_syllabus_def

subsection \<open>Running queries\<close>


lemma healthy_run_query: "healthy w \<Longrightarrow> healthy (snd (run_query q w))"
  by (cases "faults w") (auto simp: healthy_def run_query_def Let_def split: sum.splits)

lemma healthy_generate_embedding: "healthy w \<Longrightarrow> healthy (snd (generate_embedding emb t w))"
  by (simp add: healthy_def generate_embedding_def)

lemma topic_query_run:
  "run_query (topic_query s t) w =
    (if next_fault w
     then (Inl BackendError, w\<lparr>faults := tl (faults w), clock := Suc (clock w)\<rparr>)
     else (Inr (match_topic s t (graph w)), w\<lparr>faults := tl (faults w), clock := Suc (clock w)\<rparr>))"
  by (simp add: run_query_def topic_query_def)

lemma create_question_query_run:
  "run_query (create_question_query s t tx y p os a d m e) w =
    (let w1 = w\<lparr>faults := tl (faults w), clock := Suc (clock w)\<rparr>;
         R = create_question_rows
               \<lparr>q_text = tx, q_year = y, q_paper_set = p, q_options = os, q_answer = a,
                q_difficulty = d, q_marks = m, q_embedding = e, q_created_at = clock w\<rparr>
               (map fst (match_topic s t (graph w))) (graph w)
     in if next_fault w then (Inl BackendError, w1)
        else (Inr (fst R), w1\<lparr>graph := snd R\<rparr>))"
  by (simp add: run_query_def create_question_query_def Let_def split_beta)

lemmas create_question_unfold =
  create_question_def topic_query_run create_question_query_run generate_embedding_def
  Let_def split_beta

subsection \<open>Creating a question without its topic\<close>

text \<open>
  C1. When no Topic node matches the record's subject and topic, \<open>create_question\<close>
  returns \<open>None\<close> (or raises the backend's error when the lookup itself fails), never
  a created node, and the graph after the call is the graph before it: the node
  count of every label is unchanged.
\<close>

theorem create_question_missing_topic:
  assumes "match_topic (subject qd) (topic qd) (graph w) = []"
  shows "fst (create_question emb qd w) = (if next_fault w then Inl BackendError else Inr None)
       \<and> graph (snd (create_question emb qd w)) = graph w
       \<and> (\<forall>l now. count_query l now (graph (snd (create_question emb qd w)))
                    = count_query l now (graph w))"
proof -
  have g: "graph (snd (create_question emb qd w)) = graph w"
    using assms by (simp add: create_question_def topic_query_run)
  have r: "fst (create_question emb qd w) = (if next_fault w then Inl BackendError else Inr None)"
    using assms by (simp add: create_question_def topic_query_run)
  show ?thesis using g r by simp
qed

theorem create_question_missing_topic_witness:
  "match_topic (subject ex_orphan_question) (topic ex_orphan_question) (graph ex_world) = []
   \<and> fst (create_question ex_embedder ex_orphan_question ex_world) = Inr None
   \<and> graph (snd (create_question ex_embedder ex_orphan_question ex_world)) = ex_graph"
proof -
  have h: "match_topic (subject ex_orphan_question) (topic ex_orphan_question) (graph ex_world) = []"
    by (simp add: match_topic_def ex_orphan_question_def ex_question_def ex_world_def
          ex_graph_def empty_graph_def)
  have "\<not> next_fault ex_world"
    by (simp add: next_fault_def ex_world_def)
  then show ?thesis
    using h create_question_missing_topic [OF h, of ex_embedder]
    by (simp add: ex_world_def)
qed

subsection \<open>Loading a batch of questions\<close>

lemma filter_key_le1:
  "distinct (map f xs) \<Longrightarrow> length (filter (\<lambda>x. f x = k) xs) \<le> Suc 0"
proof (induction xs)
  case Nil
  then show ?case by simp
next
  case (Cons x xs)
  show ?case
  proof (cases "f x = k")
    case True
    with Cons.prems have "filter (\<lambda>y. f y = k) xs = []"
      by (auto simp: filter_empty_conv) (metis imageI)
    with True show ?thesis by simp
  next
    case False
    with Cons show ?thesis by simp
  qed
qed

lemma match_topic_le1: "topic_unique g \<Longrightarrow> length (match_topic s t g) \<le> Suc 0"
proof -
  assume "topic_unique g"
  then have "length (filter (\<lambda>x. (\<lambda>(i, t). (t_name t, t_subject t)) x = (t, s)) (topics g)) \<le> Suc 0"
    unfolding topic_unique_def by (rule filter_key_le1)
  moreover have "(\<lambda>x. (\<lambda>(i, t). (t_name t, t_subject t)) x = (t, s))
                   = (\<lambda>(i, tn). t_name tn = t \<and> t_subject tn = s)"
    by auto
  ultimately show ?thesis unfolding match_topic_def by metis
qed

lemma create_question_rows_topics:
  "topics (snd (create_question_rows q ts g)) = topics g"
  by (induction ts arbitrary: g) (simp_all add: Let_def split_beta)

lemma create_question_rows_questions:
  "length (questions (snd (create_question_rows q ts g))) = length (questions g) + length ts"
  by (induction ts arbitrary: g) (simp_all add: Let_def split_beta)


lemma create_question_topics:
  "topics (graph (snd (create_question emb qd w))) = topics (graph w)"
  by (simp add: create_question_unfold create_question_rows_topics)




lemma topic_unique_cong: "topics g = topics g' \<Longrightarrow> topic_unique g = topic_unique g'"
  by (simp add: topic_unique_def)





subsection \<open>Embeddings of created nodes\<close>

lemma embed_text_length: "model_ok emb \<Longrightarrow> length (embed_text emb text) = dimension emb"
  by (auto simp: embed_text_def model_ok_def split: option.splits)

lemma embed_text_zero:
  "text = [] \<or> strip text = [] \<or> encode emb text = None
     \<Longrightarrow> embed_text emb text = replicate (dimension emb) 0"
  by (auto simp: embed_text_def)

lemma create_question_rows_new:
  "\<exists>new. questions (snd (create_question_rows q ts g)) = questions g @ new
         \<and> (\<forall>n \<in> set new. snd n = q)"
proof (induction ts arbitrary: g)
  case Nil
  then show ?case by simp
next
  case (Cons t ts)
  let ?g1 = "g\<lparr>next_id := Suc (next_id g), questions := questions g @ [(next_id g, q)],
                has_question := has_question g @ [(t, next_id g)]\<rparr>"
  from Cons.IH [of ?g1] obtain new where
    "questions (snd (create_question_rows q ts ?g1)) = questions ?g1 @ new"
    "\<forall>n \<in> set new. snd n = q" by blast
  then have "questions (snd (create_question_rows q (t # ts) g)) = questions g @ ((next_id g, q) # new)
     \<and> (\<forall>n \<in> set ((next_id g, q) # new). snd n = q)"
    by (simp add: Let_def split_beta)
  then show ?case by blast
qed

lemma create_chunk_rows_new:
  "\<exists>new. chunks (snd (create_chunk_rows c ts g)) = chunks g @ new
         \<and> (\<forall>n \<in> set new. snd n = c)"
proof (induction ts arbitrary: g)
  case Nil
  then show ?case by simp
next
  case (Cons t ts)
  let ?g1 = "g\<lparr>next_id := Suc (next_id g), chunks := chunks g @ [(next_id g, c)],
                explained_by := explained_by g @ [(t, next_id g)]\<rparr>"
  from Cons.IH [of ?g1] obtain new where
    "chunks (snd (create_chunk_rows c ts ?g1)) = chunks ?g1 @ new"
    "\<forall>n \<in> set new. snd n = c" by blast
  then have "chunks (snd (create_chunk_rows c (t # ts) g)) = chunks g @ ((next_id g, c) # new)
     \<and> (\<forall>n \<in> set ((next_id g, c) # new). snd n = c)"
    by (simp add: Let_def split_beta)
  then show ?case by blast
qed

lemma create_chunk_query_run:
  "run_query (create_chunk_query s t tx sf pn ci e) w =
    (let w1 = w\<lparr>faults := tl (faults w), clock := Suc (clock w)\<rparr>;
         R = create_chunk_rows
               \<lparr>c_text = tx, c_source_file = sf, c_source_type = ''textbook'',
                c_page_number = pn, c_chunk_index = ci, c_embedding = e,
                c_created_at = clock w\<rparr>
               (map fst (match_topic s t (graph w))) (graph w)
     in if next_fault w then (Inl BackendError, w1)
        else (Inr (fst R), w1\<lparr>graph := snd R\<rparr>))"
  by (simp add: run_query_def create_chunk_query_def Let_def split_beta)

lemmas create_chunk_unfold =
  create_chunk_def topic_query_run create_chunk_query_run generate_embedding_def
  Let_def split_beta

lemma created_questions_embedding:
  "\<forall>n \<in> set (created_questions w (snd (create_question emb qd w))).
       q_embedding (snd n) = embed_text emb (full_text qd)"
proof -
  let ?w1 = "w\<lparr>faults := tl (faults w), clock := Suc (clock w),
                embed_calls := embed_calls w @ [full_text qd]\<rparr>"
  let ?q = "\<lparr>q_text = question_text qd, q_year = get_or (year qd) 0,
             q_paper_set = get_or (paper_set qd) ''unknown'',
             q_options = get_or (options qd) [], q_answer = get_or (answer qd) [],
             q_difficulty = get_or (difficulty qd) 0, q_marks = get_or (marks qd) 1,
             q_embedding = embed_text emb (full_text qd), q_created_at = Suc (clock w)\<rparr>"
  let ?ts = "map fst (match_topic (subject qd) (topic qd) (graph w))"
  obtain new where new: "questions (snd (create_question_rows ?q ?ts (graph w))) = questions (graph w) @ new"
     "\<forall>n \<in> set new. snd n = ?q"
    using create_question_rows_new [of ?q ?ts "graph w"] by blast
  have "graph (snd (create_question emb qd w)) = graph w
       \<or> graph (snd (create_question emb qd w)) = snd (create_question_rows ?q ?ts (graph w))"
    by (simp add: create_question_unfold)
  then show ?thesis
  proof
    assume "graph (snd (create_question emb qd w)) = graph w"
    then show ?thesis by (simp add: created_questions_def)
  next
    assume "graph (snd (create_question emb qd w)) = snd (create_question_rows ?q ?ts (graph w))"
    then show ?thesis using new by (simp add: created_questions_def)
  qed
qed

lemma created_chunks_embedding:
  "\<forall>n \<in> set (created_chunks w (snd (create_chunk emb cd w))).
       c_embedding (snd n) = chunk_embedding emb cd"
proof -
  let ?c = "\<lparr>c_text = ch_text cd, c_source_file = get_or (ch_source_file cd) ''unknown'',
             c_source_type = ''textbook'', c_page_number = get_or (ch_page_number cd) 0,
             c_chunk_index = get_or (ch_chunk_index cd) 0,
             c_embedding = chunk_embedding emb cd, c_created_at = Suc (clock w)\<rparr>"
  let ?ts = "map fst (match_topic (ch_subject cd) (ch_topic cd) (graph w))"
  obtain new where new: "chunks (snd (create_chunk_rows ?c ?ts (graph w))) = chunks (graph w) @ new"
     "\<forall>n \<in> set new. snd n = ?c"
    using create_chunk_rows_new [of ?c ?ts "graph w"] by blast
  have "graph (snd (create_chunk emb cd w)) = graph w
       \<or> graph (snd (create_chunk emb cd w)) = snd (create_chunk_rows ?c ?ts (graph w))"
    by (cases "ch_embedding cd") (simp_all add: create_chunk_unfold chunk_embedding_def)
  then show ?thesis
  proof
    assume "graph (snd (create_chunk emb cd w)) = graph w"
    then show ?thesis by (simp add: created_chunks_def)
  next
    assume "graph (snd (create_chunk emb cd w)) = snd (create_chunk_rows ?c ?ts (graph w))"
    then show ?thesis using new by (simp add: created_chunks_def)
  qed
qed

text \<open>
  C3, as the code has it. With an embedding model that returns vectors of the
  dimension D it reports: every Question node that \<open>create_question\<close> creates, and every
  Chunk node that \<open>create_chunk\<close> creates from a record without an embedding (or with an
  empty one), stores a vector of length D, the all-zero vector of length D when the
  text is empty or blank or the model fails. A non-empty embedding that comes with
  the chunk record is stored as it is, whatever its length.
\<close>

theorem embedding_dimension_invariant:
  assumes "model_ok emb"
  shows "(\<forall>(i, q) \<in> set (created_questions w (snd (create_question emb qd w))).
            length (q_embedding q) = dimension emb
            \<and> (full_text qd = [] \<or> strip (full_text qd) = [] \<or> encode emb (full_text qd) = None
                 \<longrightarrow> q_embedding q = replicate (dimension emb) 0))
       \<and> (ch_embedding cd = None \<or> ch_embedding cd = Some [] \<longrightarrow>
           (\<forall>(i, c) \<in> set (created_chunks w (snd (create_chunk emb cd w))).
              length (c_embedding c) = dimension emb
              \<and> (ch_text cd = [] \<or> strip (ch_text cd) = [] \<or> encode emb (ch_text cd) = None
                   \<longrightarrow> c_embedding c = replicate (dimension emb) 0)))
       \<and> (\<forall>v. ch_embedding cd = Some v \<and> v \<noteq> [] \<longrightarrow>
           (\<forall>(i, c) \<in> set (created_chunks w (snd (create_chunk emb cd w))). c_embedding c = v))"
proof -
  have q: "\<forall>n \<in> set (created_questions w (snd (create_question emb qd w))).
       q_embedding (snd n) = embed_text emb (full_text qd)"
    by (rule created_questions_embedding)
  have c: "\<forall>n \<in> set (created_chunks w (snd (create_chunk emb cd w))).
       c_embedding (snd n) = chunk_embedding emb cd"
    by (rule created_chunks_embedding)
  have 1: "\<forall>(i, q) \<in> set (created_questions w (snd (create_question emb qd w))).
            length (q_embedding q) = dimension emb
            \<and> (full_text qd = [] \<or> strip (full_text qd) = [] \<or> encode emb (full_text qd) = None
                 \<longrightarrow> q_embedding q = replicate (dimension emb) 0)"
    using q embed_text_length [OF assms, of "full_text qd"] embed_text_zero [of "full_text qd" emb]
    by fastforce
  have 2: "ch_embedding cd = None \<or> ch_embedding cd = Some [] \<longrightarrow>
           (\<forall>(i, c) \<in> set (created_chunks w (snd (create_chunk emb cd w))).
              length (c_embedding c) = dimension emb
              \<and> (ch_text cd = [] \<or> strip (ch_text cd) = [] \<or> encode emb (ch_text cd) = None
                   \<longrightarrow> c_embedding c = replicate (dimension emb) 0))"
    using c embed_text_length [OF assms, of "ch_text cd"] embed_text_zero [of "ch_text cd" emb]
    by (fastforce simp: chunk_embedding_def)
  have 3: "\<forall>v. ch_embedding cd = Some v \<and> v \<noteq> [] \<longrightarrow>
           (\<forall>(i, c) \<in> set (created_chunks w (snd (create_chunk emb cd w))). c_embedding c = v)"
    using c by (fastforce simp: chunk_embedding_def)
  show ?thesis using 1 2 3 by blast
qed

lemma ex_model_ok: "model_ok ex_embedder"
  by (simp add: model_ok_def ex_embedder_def)

lemma ex_create_question:
  "created_questions ex_world (snd (create_question ex_embedder ex_question ex_world)) =
     [(2, \<lparr>q_text = ''What is a deadlock?'', q_year = 2023, q_paper_set = ''unknown'',
           q_options = [], q_answer = [], q_difficulty = 0, q_marks = 1,
           q_embedding = replicate 384 1, q_created_at = 11\<rparr>)]"
  by (simp add: created_questions_def create_question_unfold next_fault_def match_topic_def
        full_text_def get_or_def embed_text_def strip_def is_space_def ex_defs)

lemma ex_create_chunk:
  "created_chunks ex_world (snd (create_chunk ex_embedder ex_chunk ex_world)) =
     [(2, \<lparr>c_text = ''A deadlock is a circular wait.'', c_source_file = ''os.pdf'',
           c_source_type = ''textbook'', c_page_number = 7, c_chunk_index = 0,
           c_embedding = replicate 384 1, c_created_at = 11\<rparr>)]"
  by (simp add: created_chunks_def create_chunk_unfold next_fault_def match_topic_def
        get_or_def embed_text_def strip_def is_space_def ex_defs)

text \<open>
  C3 as stated fails for a chunk record that brings its own embedding: a vector of
  length 1 is stored on the created Chunk although the dimension is 384.
\<close>

theorem embedding_dimension_counterexample:
  "fst (create_chunk ex_embedder ex_chunk_short ex_world) =
     Inr (Some (2, \<lparr>c_text = ''A deadlock is a circular wait.'', c_source_file = ''os.pdf'',
           c_source_type = ''textbook'', c_page_number = 7, c_chunk_index = 0,
           c_embedding = [1], c_created_at = 11\<rparr>))
   \<and> chunks (graph (snd (create_chunk ex_embedder ex_chunk_short ex_world))) =
     [(2, \<lparr>c_text = ''A deadlock is a circular wait.'', c_source_file = ''os.pdf'',
           c_source_type = ''textbook'', c_page_number = 7, c_chunk_index = 0,
           c_embedding = [1], c_created_at = 11\<rparr>)]
   \<and> length [1 :: real] \<noteq> dimension ex_embedder"
  by (simp add: create_chunk_unfold next_fault_def match_topic_def first_row_def
        get_or_def ex_defs)

theorem embedding_dimension_invariant_witness:
  "model_ok ex_embedder
   \<and> ch_embedding ex_chunk = None
   \<and> map (\<lambda>(i, q). length (q_embedding q))
        (created_questions ex_world (snd (create_question ex_embedder ex_question ex_world))) = [384]
   \<and> map (\<lambda>(i, c). length (c_embedding c))
        (created_chunks ex_world (snd (create_chunk ex_embedder ex_chunk ex_world))) = [384]"
proof -
  have n: "ch_embedding ex_chunk = None" by (simp add: ex_defs)
  have d: "dimension ex_embedder = 384" by (simp add: ex_defs)
  note t = embedding_dimension_invariant [OF ex_model_ok, of ex_world ex_question ex_chunk]
  show ?thesis
    using ex_model_ok n d t ex_create_question ex_create_chunk by simp
qed

subsection \<open>Where the embedding of a chunk comes from\<close>

lemma run_query_embed_calls: "embed_calls (snd (run_query q w)) = embed_calls w"
  by (simp add: run_query_def Let_def split: sum.splits prod.splits)

lemma create_chunk_embed_calls:
  "embed_calls (snd (create_chunk emb cd w)) =
     embed_calls w @ (case ch_embedding cd of
                        None \<Rightarrow> [ch_text cd]
                      | Some v \<Rightarrow> if v = [] then [ch_text cd] else [])"
  by (cases "ch_embedding cd") (simp_all add: create_chunk_unfold)

text \<open>
  C7, as the code has it. \<open>create_chunk\<close> calls the embedding model, on the record's
  text, exactly when the record has no embedding or an empty one; a non-empty
  supplied vector is stored on the created Chunk as it is and the model is not called.
\<close>

theorem create_chunk_embedding_source:
  "embed_calls (snd (create_chunk emb cd w)) =
     embed_calls w @ (case ch_embedding cd of
                        None \<Rightarrow> [ch_text cd]
                      | Some v \<Rightarrow> if v = [] then [ch_text cd] else [])
   \<and> (\<forall>(i, c) \<in> set (created_chunks w (snd (create_chunk emb cd w))).
         c_embedding c = (case ch_embedding cd of
                            None \<Rightarrow> embed_text emb (ch_text cd)
                          | Some v \<Rightarrow> if v = [] then embed_text emb (ch_text cd) else v))"
  using created_chunks_embedding [of w emb cd] create_chunk_embed_calls [of emb cd w]
  by (fastforce simp: chunk_embedding_def)

lemma ex_create_chunk_short:
  "created_chunks ex_world (snd (create_chunk ex_embedder ex_chunk_short ex_world)) =
     [(2, \<lparr>c_text = ''A deadlock is a circular wait.'', c_source_file = ''os.pdf'',
           c_source_type = ''textbook'', c_page_number = 7, c_chunk_index = 0,
           c_embedding = [1], c_created_at = 11\<rparr>)]"
  by (simp add: created_chunks_def create_chunk_unfold next_fault_def match_topic_def
        get_or_def ex_defs)

theorem create_chunk_embedding_source_witness:
  "embed_calls (snd (create_chunk ex_embedder ex_chunk_short ex_world)) = []
   \<and> map (\<lambda>(i, c). c_embedding c)
        (created_chunks ex_world (snd (create_chunk ex_embedder ex_chunk_short ex_world))) = [[1]]
   \<and> embed_calls (snd (create_chunk ex_embedder ex_chunk ex_world))
        = [''A deadlock is a circular wait.'']
   \<and> map (\<lambda>(i, c). c_embedding c)
        (created_chunks ex_world (snd (create_chunk ex_embedder ex_chunk ex_world)))
        = [embed_text ex_embedder ''A deadlock is a circular wait.'']"
  using create_chunk_embedding_source [of ex_embedder ex_chunk_short ex_world]
    create_chunk_embedding_source [of ex_embedder ex_chunk ex_world]
    ex_create_chunk_short ex_create_chunk
  by (simp add: ex_defs)

text \<open>
  C7 as stated fails for a record that carries an empty embedding: the model is
  called and its vector, not the supplied one, is stored.
\<close>

theorem create_chunk_embedding_source_counterexample:
  "ch_embedding ex_chunk_empty = Some []
   \<and> embed_calls (snd (create_chunk ex_embedder ex_chunk_empty ex_world))
        = [''A deadlock is a circular wait.'']
   \<and> fst (create_chunk ex_embedder ex_chunk_empty ex_world) =
     Inr (Some (2, \<lparr>c_text = ''A deadlock is a circular wait.'', c_source_file = ''os.pdf'',
           c_source_type = ''textbook'', c_page_number = 7, c_chunk_index = 0,
           c_embedding = replicate 384 1, c_created_at = 11\<rparr>))
   \<and> replicate 384 (1 :: real) \<noteq> []"
  by (simp add: create_chunk_unfold next_fault_def match_topic_def first_row_def
        get_or_def embed_text_def strip_def is_space_def ex_defs)

subsection \<open>Ordering\<close>

lemma set_insort_by: "set (insort_by le x xs) = insert x (set xs)"
  by (induction xs) auto

lemma set_order_by: "set (order_by le xs) = set xs"
  by (induction xs) (simp_all add: order_by_def set_insort_by)

lemma length_insort_by: "length (insort_by le x xs) = Suc (length xs)"
  by (induction xs) auto

lemma length_order_by: "length (order_by le xs) = length xs"
  by (induction xs) (simp_all add: order_by_def length_insort_by)

lemma sorted_wrt_insort_by:
  assumes total: "\<And>a b. le a b \<or> le b a"
    and trans: "\<And>a b c. le a b \<Longrightarrow> le b c \<Longrightarrow> le a c"
  shows "sorted_wrt le xs \<Longrightarrow> sorted_wrt le (insort_by le x xs)"
proof (induction xs)
  case Nil
  then show ?case by simp
next
  case (Cons y ys)
  show ?case
  proof (cases "le x y")
    case True
    then have "\<forall>z \<in> set ys. le x z"
      using Cons.prems trans by auto
    with True Cons.prems show ?thesis by simp
  next
    case False
    then have "le y x" using total by blast
    with False Cons show ?thesis by (auto simp: set_insort_by)
  qed
qed

lemma sorted_wrt_order_by:
  assumes total: "\<And>a b. le a b \<or> le b a"
    and trans: "\<And>a b c. le a b \<Longrightarrow> le b c \<Longrightarrow> le a c"
  shows "sorted_wrt le (order_by le xs)"
proof (induction xs)
  case Nil
  then show ?case by (simp add: order_by_def)
next
  case (Cons x xs)
  have "order_by le (x # xs) = insort_by le x (order_by le xs)"
    by (simp add: order_by_def)
  then show ?case
    using sorted_wrt_insort_by [of le "order_by le xs" x, OF total trans] Cons by simp
qed

lemma questions_by_difficulty_run:
  "fst (get_questions_ordered_by_difficulty subj tname ascending w) =
     (if next_fault w then []
      else order_by (\<lambda>a b.
                 (if ascending then r_difficulty a < r_difficulty b
                  else r_difficulty a > r_difficulty b) \<or>
                 (r_difficulty a = r_difficulty b \<and> r_year a \<ge> r_year b))
             (map (\<lambda>(qid, q). \<lparr>r_question = q_text q, r_options = q_options q,
                             r_answer = q_answer q, r_year = q_year q,
                             r_difficulty = q_difficulty q, r_marks = q_marks q,
                             r_paper_set = None\<rparr>) (topic_questions subj tname (graph w))))"
  by (simp add: get_questions_ordered_by_difficulty_def run_query_def
        questions_by_difficulty_query_def Let_def)

text \<open>
  C6. Whatever the graph and the backend do, the list that
  \<open>get_questions_ordered_by_difficulty\<close> returns is non-decreasing in difficulty when
  \<open>ascending\<close> is true and non-increasing when it is false, and rows of equal
  difficulty are in descending order of year.
\<close>

theorem questions_ordered_by_difficulty_sorted:
  "sorted_wrt (difficulty_order ascending)
     (fst (get_questions_ordered_by_difficulty subj tname ascending w))"
proof (cases "next_fault w")
  case True
  then show ?thesis by (simp add: questions_by_difficulty_run)
next
  case False
  let ?le = "\<lambda>a b. (if ascending then r_difficulty a < r_difficulty b
                  else r_difficulty a > r_difficulty b) \<or>
                 (r_difficulty a = r_difficulty b \<and> r_year a \<ge> r_year b)"
  have eq: "difficulty_order ascending = ?le"
    by (auto simp: difficulty_order_def fun_eq_iff)
  obtain rows where r: "fst (get_questions_ordered_by_difficulty subj tname ascending w)
      = order_by ?le rows"
    using False questions_by_difficulty_run [of subj tname ascending w] by auto
  have "sorted_wrt ?le (order_by ?le rows)"
    by (rule sorted_wrt_order_by) (auto split: if_splits)
  then show ?thesis unfolding r eq .
qed

lemma ex_topic_questions:
  "topic_questions ''OS'' ''Deadlocks'' ex_graph_q =
     [(2, ex_question_node ''Q1'' 2020 0), (3, ex_question_node ''Q2'' 2021 1),
      (4, ex_question_node ''Q3'' 2022 0)]"
  by (simp add: topic_questions_def match_topic_def ex_graph_q_def ex_graph_def empty_graph_def)

lemma ex_ordered_by_difficulty:
  "map (\<lambda>r. (r_difficulty r, r_year r))
     (fst (get_questions_ordered_by_difficulty ''OS'' ''Deadlocks'' True ex_world_q))
   = [(0, 2022), (0, 2020), (1, 2021)]"
  by (simp add: questions_by_difficulty_run next_fault_def ex_world_q_def ex_world_def
        ex_topic_questions order_by_def ex_question_node_def)

theorem questions_ordered_by_difficulty_sorted_witness:
  "map (\<lambda>r. (r_difficulty r, r_year r))
     (fst (get_questions_ordered_by_difficulty ''OS'' ''Deadlocks'' True ex_world_q))
   = [(0, 2022), (0, 2020), (1, 2021)]
   \<and> sorted_wrt (difficulty_order True)
     (fst (get_questions_ordered_by_difficulty ''OS'' ''Deadlocks'' True ex_world_q))"
  using questions_ordered_by_difficulty_sorted [of True "''OS''" "''Deadlocks''" ex_world_q]
    ex_ordered_by_difficulty
  by simp

subsection \<open>Filters of the topic listing\<close>

lemma limit_rows_subset: "limit_rows n rows = Inr limited \<Longrightarrow> set limited \<subseteq> set rows"
  by (auto simp: limit_rows_def split: if_splits dest: in_set_takeD)

lemma questions_by_topic_year_zero:
  "questions_by_topic_query subj tname (Some 0) diff lmt = questions_by_topic_query subj tname None diff lmt"
  by (simp add: questions_by_topic_query_def truthy_int_def fun_eq_iff)

lemma questions_by_topic_difficulty:
  assumes "questions_by_topic_query subj tname yr (Some d) lmt now g = Inr (rows, g')"
  shows "\<forall>r \<in> set rows. r_difficulty r = d"
proof -
  let ?le = "\<lambda>a b. r_year a > r_year b \<or> (r_year a = r_year b \<and> r_difficulty a \<le> r_difficulty b)"
  let ?qs = "if truthy_int yr
             then filter (\<lambda>q. Some (q_year q) = yr) (map snd (topic_questions subj tname g))
             else map snd (topic_questions subj tname g)"
  have lr: "limit_rows lmt (order_by ?le
       (map (\<lambda>q. \<lparr>r_question = q_text q, r_options = q_options q,
                             r_answer = q_answer q, r_year = q_year q,
                             r_difficulty = q_difficulty q, r_marks = q_marks q,
                             r_paper_set = Some (q_paper_set q)\<rparr>)
          (filter (\<lambda>q. Some (q_difficulty q) = Some d) ?qs))) = Inr rows"
    using assms
    by (cases "truthy_int yr")
       (simp_all add: questions_by_topic_query_def Let_def split: sum.splits)
  from limit_rows_subset [OF lr] show ?thesis
    by (auto simp: set_order_by)
qed

text \<open>
  C10. In \<open>get_questions_by_topic\<close> a year of 0 is no filter at all: the call gives
  what the call without a year gives. A difficulty of 0 is a filter: every returned
  row has difficulty 0.
\<close>

theorem questions_by_topic_zero_filters:
  "get_questions_by_topic subj tname (Some 0) diff lmt w
     = get_questions_by_topic subj tname None diff lmt w
   \<and> (\<forall>r \<in> set (fst (get_questions_by_topic subj tname yr (Some 0) lmt w)). r_difficulty r = 0)"
proof -
  have 1: "get_questions_by_topic subj tname (Some 0) diff lmt w
     = get_questions_by_topic subj tname None diff lmt w"
    by (simp add: get_questions_by_topic_def questions_by_topic_year_zero)
  have 2: "\<forall>r \<in> set (fst (get_questions_by_topic subj tname yr (Some 0) lmt w)). r_difficulty r = 0"
  proof (cases "run_query (questions_by_topic_query subj tname yr (Some 0) lmt) w")
    case (Pair res w')
    show ?thesis
    proof (cases res)
      case (Inl e)
      with Pair show ?thesis by (simp add: get_questions_by_topic_def)
    next
      case (Inr rows)
      with Pair obtain g' where
        "questions_by_topic_query subj tname yr (Some 0) lmt (clock w) (graph w) = Inr (rows, g')"
        by (auto simp: run_query_def Let_def split: if_splits sum.splits)
      from questions_by_topic_difficulty [OF this] Pair Inr show ?thesis
        by (simp add: get_questions_by_topic_def)
    qed
  qed
  show ?thesis using 1 2 by blast
qed

lemma ex_by_topic_year_zero:
  "map (\<lambda>r. (r_year r, r_difficulty r))
     (fst (get_questions_by_topic ''OS'' ''Deadlocks'' (Some 0) None 10 ex_world_q))
   = [(2022, 0), (2021, 1), (2020, 0)]"
  by (simp add: get_questions_by_topic_def run_query_def questions_by_topic_query_def
        truthy_int_def limit_rows_def Let_def next_fault_def ex_world_q_def ex_world_def
        ex_topic_questions order_by_def ex_question_node_def)

lemma ex_by_topic_difficulty_zero:
  "map (\<lambda>r. (r_year r, r_difficulty r))
     (fst (get_questions_by_topic ''OS'' ''Deadlocks'' None (Some 0) 10 ex_world_q))
   = [(2022, 0), (2020, 0)]"
  by (simp add: get_questions_by_topic_def run_query_def questions_by_topic_query_def
        truthy_int_def limit_rows_def Let_def next_fault_def ex_world_q_def ex_world_def
        ex_topic_questions order_by_def ex_question_node_def)

theorem questions_by_topic_zero_filters_witness:
  "map (\<lambda>r. (r_year r, r_difficulty r))
     (fst (get_questions_by_topic ''OS'' ''Deadlocks'' (Some 0) None 10 ex_world_q))
   = [(2022, 0), (2021, 1), (2020, 0)]
   \<and> get_questions_by_topic ''OS'' ''Deadlocks'' (Some 0) None 10 ex_world_q
     = get_questions_by_topic ''OS'' ''Deadlocks'' None None 10 ex_world_q
   \<and> map (\<lambda>r. (r_year r, r_difficulty r))
     (fst (get_questions_by_topic ''OS'' ''Deadlocks'' None (Some 0) 10 ex_world_q))
   = [(2022, 0), (2020, 0)]"
  using questions_by_topic_zero_filters
          [of "''OS''" "''Deadlocks''" None 10 ex_world_q None]
    ex_by_topic_year_zero ex_by_topic_difficulty_zero
  by simp

subsection \<open>Backend errors\<close>




lemma fst_case_fault:
  "fst r = Inl e \<Longrightarrow> (case r of (Inl e, w') \<Rightarrow> f e w' | (Inr x, w') \<Rightarrow> g x w') = f e (snd r)"
  by (cases r) auto




subsection \<open>Graph search without content\<close>

lemma graph_search_run:
  "fst (graph_search subj tname ic w) =
     (if next_fault w then None
      else (case graph_search_query subj tname ic (clock w) (graph w) of
              Inl e \<Rightarrow> None
            | Inr (rows, g') \<Rightarrow> first_row rows))"
  by (simp add: graph_search_def run_query_def Let_def split: sum.splits prod.splits)

lemma subject_topics_no_subject:
  "match_subject subj g = [] \<Longrightarrow> subject_topics subj tname g = []"
  by (simp add: subject_topics_def)

lemma concat_map_all_Nil: "(\<forall>x \<in> set xs. f x = []) \<Longrightarrow> concat (map f xs) = []"
  by (induction xs) simp_all

lemma subject_topics_no_topic:
  assumes "filter (\<lambda>(i, t). t_name t = tname) (topics g) = []"
  shows "subject_topics subj tname g = []"
proof -
  have none: "filter (\<lambda>(tid, t). tid = b \<and> t_name t = tname) (topics g) = []" for b
    using assms by (auto simp: filter_empty_conv)
  have "concat (map (\<lambda>(a, b). if a = sid
                       then filter (\<lambda>(tid, t). tid = b \<and> t_name t = tname) (topics g)
                       else []) (has_topic g)) = []" for sid
    by (rule concat_map_all_Nil) (simp add: none split_beta)
  then show ?thesis
    unfolding subject_topics_def by (intro concat_map_all_Nil) (simp add: split_beta)
qed

lemma collect_distinct_Nil: "(collect_distinct xs = []) = (xs = [])"
  by (cases xs) simp_all

lemma graph_search_no_match:
  "subject_topics subj tname (graph w) = [] \<Longrightarrow> fst (graph_search subj tname ic w) = None"
  by (simp add: graph_search_run graph_search_query_def first_row_def)

lemma graph_search_no_content:
  assumes m: "subject_topics subj tname (graph w) \<noteq> []"
    and c: "\<forall>(tid, t) \<in> set (subject_topics subj tname (graph w)).
              linked (explained_by (graph w)) (chunks (graph w)) tid = []
              \<and> linked (has_question (graph w)) (questions (graph w)) tid = []"
    and f: "\<not> next_fault w"
  shows "\<exists>ctx. fst (graph_search subj tname ic w) = Some ctx
           \<and> question_count ctx = 0 \<and> sample_chunks ctx = []"
proof -
  let ?g = "graph w"
  let ?matched = "subject_topics subj tname ?g"
  obtain key keys where k: "collect_distinct (map group_key ?matched) = key # keys"
    using m by (cases "collect_distinct (map group_key ?matched)") (simp_all add: collect_distinct_Nil)
  let ?tids = "map fst (filter (\<lambda>row. group_key row = key) ?matched)"
  have "\<forall>tid \<in> set ?tids. linked (explained_by ?g) (chunks ?g) tid = []"
    using c by auto
  then have ch: "concat (map (linked (explained_by ?g) (chunks ?g)) ?tids) = []"
    by (rule concat_map_all_Nil)
  have "\<forall>tid \<in> set ?tids. linked (has_question ?g) (questions ?g) tid = []"
    using c by auto
  then have qs: "concat (map (linked (has_question ?g) (questions ?g)) ?tids) = []"
    by (rule concat_map_all_Nil)
  show ?thesis
    using f k ch qs
    by (simp add: graph_search_run graph_search_query_def first_row_def Let_def
          collect_distinct_Nil)
qed

text \<open>
  C9. \<open>graph_search\<close> never raises. Without a Subject node of that name, without a
  Topic node of that name, or with no such Topic linked from such a Subject, it
  returns the empty dictionary. When the Topic is there and nothing was ingested for
  it (no Chunk and no Question linked from it), it returns a context with a question
  count of zero and no sample chunks (or the empty dictionary when the backend fails).
\<close>

theorem graph_search_empty_context:
  "(match_subject subj (graph w) = [] \<or> filter (\<lambda>(i, t). t_name t = tname) (topics (graph w)) = []
      \<or> subject_topics subj tname (graph w) = []
     \<longrightarrow> fst (graph_search subj tname include_concepts w) = None)
   \<and> (subject_topics subj tname (graph w) \<noteq> []
        \<and> (\<forall>(tid, t) \<in> set (subject_topics subj tname (graph w)).
              linked (explained_by (graph w)) (chunks (graph w)) tid = []
              \<and> linked (has_question (graph w)) (questions (graph w)) tid = [])
     \<longrightarrow> (if next_fault w then fst (graph_search subj tname include_concepts w) = None
          else \<exists>ctx. fst (graph_search subj tname include_concepts w) = Some ctx
                  \<and> question_count ctx = 0 \<and> sample_chunks ctx = []))"
proof -
  have 1: "match_subject subj (graph w) = [] \<or> filter (\<lambda>(i, t). t_name t = tname) (topics (graph w)) = []
      \<or> subject_topics subj tname (graph w) = []
     \<longrightarrow> fst (graph_search subj tname include_concepts w) = None"
    using subject_topics_no_subject [of subj "graph w" tname]
      subject_topics_no_topic [of tname "graph w" subj]
      graph_search_no_match [of subj tname w include_concepts]
    by blast
  have 2: "next_fault w \<Longrightarrow> fst (graph_search subj tname include_concepts w) = None"
    by (simp add: graph_search_run)
  show ?thesis
    using 1 2 graph_search_no_content [of subj tname w include_concepts]
    by (cases "next_fault w") simp_all
qed

lemma ex_subject_topics:
  "subject_topics ''OS'' ''Deadlocks'' ex_graph =
     [(1, \<lparr>t_name = ''Deadlocks'', t_subject = ''OS'', t_description = ''Deadlock handling'',
           t_difficulty_level = 3, t_updated_at = 2\<rparr>)]"
  by (simp add: subject_topics_def match_subject_def ex_graph_def empty_graph_def)

theorem graph_search_empty_context_witness:
  "match_subject ''Networks'' (graph ex_world) = []
   \<and> fst (graph_search ''Networks'' ''Routing'' True ex_world) = None
   \<and> subject_topics ''OS'' ''Deadlocks'' (graph ex_world) \<noteq> []
   \<and> \<not> next_fault ex_world
   \<and> (\<exists>ctx. fst (graph_search ''OS'' ''Deadlocks'' True ex_world) = Some ctx
          \<and> question_count ctx = 0 \<and> sample_chunks ctx = [])"
proof -
  have a: "match_subject ''Networks'' (graph ex_world) = []"
    by (simp add: match_subject_def ex_defs)
  have b: "subject_topics ''OS'' ''Deadlocks'' (graph ex_world) \<noteq> []"
    by (simp add: ex_world_def ex_subject_topics)
  have c: "\<forall>(tid, t) \<in> set (subject_topics ''OS'' ''Deadlocks'' (graph ex_world)).
              linked (explained_by (graph ex_world)) (chunks (graph ex_world)) tid = []
              \<and> linked (has_question (graph ex_world)) (questions (graph ex_world)) tid = []"
    by (simp add: ex_world_def ex_subject_topics) (simp add: linked_def ex_graph_def empty_graph_def)
  have d: "\<not> next_fault ex_world"
    by (simp add: next_fault_def ex_world_def)
  show ?thesis
    using a b c d
      graph_search_empty_context [of "''Networks''" ex_world "''Routing''" True]
      graph_search_empty_context [of "''OS''" ex_world "''Deadlocks''" True]
    by simp
qed

subsection \<open>Recording attempts\<close>

lemma attempts_of_merge_same:
  "attempts_of key (merge_attempted c now key rels) =
     (if attempts_of key rels = [] then [on_create c now]
      else map (on_match c now) (attempts_of key rels))"
proof -
  have "map snd (filter (\<lambda>(k, a). k = key)
          (map (\<lambda>(k, a). if k = key then (k, on_match c now a) else (k, a)) rels))
        = map (on_match c now) (map snd (filter (\<lambda>(k, a). k = key) rels))"
    by (induction rels) (auto split: if_splits)
  then show ?thesis
    by (simp add: attempts_of_def merge_attempted_def)
qed

lemma attempts_of_merge_other:
  assumes "key' \<noteq> key"
  shows "attempts_of key' (merge_attempted c now key rels) = attempts_of key' rels"
proof -
  have "map snd (filter (\<lambda>(k, a). k = key')
          (map (\<lambda>(k, a). if k = key then (k, on_match c now a) else (k, a)) rels))
        = map snd (filter (\<lambda>(k, a). k = key') rels)"
    using assms by (induction rels) (auto split: if_splits)
  then show ?thesis
    using assms by (simp add: attempts_of_def merge_attempted_def)
qed

lemma attempts_of_fold_other:
  "key \<notin> set rows \<Longrightarrow>
     attempts_of key (foldl (\<lambda>rels k. merge_attempted c now k rels) rels rows) = attempts_of key rels"
  by (induction rows arbitrary: rels) (auto simp: attempts_of_merge_other)

lemma attempts_of_fold_same:
  "distinct rows \<Longrightarrow> key \<in> set rows \<Longrightarrow>
     attempts_of key (foldl (\<lambda>rels k. merge_attempted c now k rels) rels rows) =
       (if attempts_of key rels = [] then [on_create c now]
        else map (on_match c now) (attempts_of key rels))"
proof (induction rows arbitrary: rels)
  case Nil
  then show ?case by simp
next
  case (Cons k rows)
  show ?case
  proof (cases "k = key")
    case True
    with Cons.prems have "key \<notin> set rows" by simp
    from attempts_of_fold_other [OF this] True show ?thesis
      by (simp add: attempts_of_merge_same)
  next
    case False
    with Cons show ?thesis
      by (simp add: attempts_of_merge_other [of key k])
  qed
qed

lemma record_attempt_graph:
  "\<not> next_fault w \<Longrightarrow>
     attempted (graph (record_attempt subj tname text c w)) =
       foldl (\<lambda>rels k. merge_attempted c (clock w) k rels) (attempted (graph w))
         (attempt_rows subj tname text (graph w))"
  by (simp add: record_attempt_def run_query_def record_attempt_query_def Let_def)

subsection \<open>Loading the syllabus twice\<close>



lemma subject_ids_keys:
  "subject_ids g name =
     map fst (filter (\<lambda>(i, n). n = name) (map (\<lambda>(i, s). (i, s_name s)) (subjects g)))"
  unfolding subject_ids_def match_subject_def
  by (simp add: filter_map comp_def case_prod_unfold)








lemma subject_step_eq:
  "subject_step name d now g = set_subject name d now (merge_subject_node name g)"
  by (simp add: subject_step_def create_subject_query_def Let_def)


lemma topic_step_eq:
  "topic_step subj tname d k now g =
     (if subject_ids g subj = [] then g
      else (set_topic subj tname d k now (merge_topic_node subj tname g))
             \<lparr>has_topic :=
                merge_edges (concat (map (\<lambda>s. map (\<lambda>t. (s, fst t))
                     (match_topic subj tname (set_topic subj tname d k now
                         (merge_topic_node subj tname g))))
                   (subject_ids g subj)))
                  (has_topic g)\<rparr>)"
  by (simp add: topic_step_def create_topic_query_def Let_def subject_ids_def
        set_topic_def merge_topic_node_def)

lemma subject_keys_set_subject:
  "map (\<lambda>(i, s). (i, s_name s)) (subjects (set_subject name d now g))
     = map (\<lambda>(i, s). (i, s_name s)) (subjects g)"
  by (auto simp: set_subject_def)

lemma topic_keys_set_topic:
  "map (\<lambda>(i, t). (i, t_name t, t_subject t)) (topics (set_topic subj tname d k now g))
     = map (\<lambda>(i, t). (i, t_name t, t_subject t)) (topics g)"
  by (auto simp: set_topic_def)

lemma subject_ids_set_subject [simp]:
  "subject_ids (set_subject name d now g) m = subject_ids g m"
  by (simp only: subject_ids_keys subject_keys_set_subject)

lemma topic_ids_set_subject [simp]:
  "topic_ids (set_subject name d now g) s t = topic_ids g s t"
  by (simp add: topic_ids_def match_topic_def set_subject_def)


lemma subject_ids_set_topic [simp]:
  "subject_ids (set_topic subj tname d k now g) m = subject_ids g m"
  by (simp add: subject_ids_def match_subject_def set_topic_def)


lemma topic_ids_merge_subject_node [simp]:
  "topic_ids (merge_subject_node name g) s t = topic_ids g s t"
  by (simp add: topic_ids_def match_topic_def merge_subject_node_def)


lemma subject_ids_merge_topic_node [simp]:
  "subject_ids (merge_topic_node subj tname g) m = subject_ids g m"
  by (simp add: subject_ids_def match_subject_def merge_topic_node_def)

lemma has_topic_subject_step [simp]: "has_topic (subject_step name d now g) = has_topic g"
  by (simp add: subject_step_eq set_subject_def merge_subject_node_def)


lemma topic_ids_subject_step [simp]: "topic_ids (subject_step name d now g) s t = topic_ids g s t"
  by (simp add: subject_step_eq)

lemma subject_ids_has_topic_update [simp]: "subject_ids (g\<lparr>has_topic := E\<rparr>) m = subject_ids g m"
  by (simp add: subject_ids_def match_subject_def)

lemma topic_ids_has_topic_update [simp]: "topic_ids (g\<lparr>has_topic := E\<rparr>) s t = topic_ids g s t"
  by (simp add: topic_ids_def match_topic_def)

lemma subject_ids_topic_step [simp]:
  "subject_ids (topic_step subj tname d k now g) m = subject_ids g m"
  by (simp add: topic_step_eq)


lemma has_topic_set_topic [simp]: "has_topic (set_topic subj tname d k now g) = has_topic g"
  by (simp add: set_topic_def)

lemma has_topic_merge_topic_node [simp]: "has_topic (merge_topic_node subj tname g) = has_topic g"
  by (simp add: merge_topic_node_def)































subsection \<open>The builder keeps Topic keys unique\<close>

lemma topic_unique_empty: "topic_unique empty_graph"
  by (simp add: topic_unique_def empty_graph_def)

lemma topic_key_names:
  "map (\<lambda>(i, t). (t_name t, t_subject t)) (topics g)
     = map snd (map (\<lambda>(i, t). (i, t_name t, t_subject t)) (topics g))"
  by (simp add: comp_def case_prod_unfold)

lemma topic_unique_set_topic:
  "topic_unique (set_topic subj tname d k now g) = topic_unique g"
  unfolding topic_unique_def topic_key_names topic_keys_set_topic ..

lemma topic_unique_merge_topic_node:
  assumes "topic_unique g"
  shows "topic_unique (merge_topic_node subj tname g)"
proof (cases "match_topic subj tname g = []")
  case True
  then have "(tname, subj) \<notin> set (map (\<lambda>(i, t). (t_name t, t_subject t)) (topics g))"
    by (auto simp: match_topic_def filter_empty_conv)
  with assms True show ?thesis
    by (simp add: topic_unique_def merge_topic_node_def)
next
  case False
  with assms show ?thesis by (simp add: merge_topic_node_def)
qed

lemma topic_unique_topic_step:
  "topic_unique g \<Longrightarrow> topic_unique (topic_step subj tname d k now g)"
  using topic_unique_merge_topic_node [of g subj tname]
    topic_unique_set_topic [of subj tname d k now "merge_topic_node subj tname g"]
  by (simp add: topic_step_eq topic_unique_def)

lemma topics_subject_step: "topics (subject_step name d now g) = topics g"
  by (simp add: subject_step_eq set_subject_def merge_subject_node_def)

lemma create_subject_graph:
  "graph (snd (create_subject name d w)) =
     (if next_fault w then graph w else subject_step name d (clock w) (graph w))"
  by (simp add: create_subject_def run_query_def subject_step_def create_subject_query_def Let_def)

lemma create_topic_graph:
  "graph (snd (create_topic subj tname d k w)) =
     (if next_fault w then graph w else topic_step subj tname d k (clock w) (graph w))"
  by (simp add: create_topic_def run_query_def topic_step_def create_topic_query_def Let_def)

lemma create_subject_topic_unique:
  "topic_unique (graph w) \<Longrightarrow> topic_unique (graph (snd (create_subject name d w)))"
  by (simp add: create_subject_graph topic_unique_def topics_subject_step)

lemma create_topic_topic_unique:
  "topic_unique (graph w) \<Longrightarrow> topic_unique (graph (snd (create_topic subj tname d k w)))"
  by (simp add: create_topic_graph topic_unique_topic_step)

lemma load_topics_topic_unique:
  "topic_unique (graph w) \<Longrightarrow> topic_unique (graph (snd (load_topics subj tps w)))"
proof (induction tps arbitrary: w)
  case Nil
  then show ?case by simp
next
  case (Cons tp tps)
  let ?r = "create_topic subj (ti_name tp) (get_or (ti_description tp) [])
              (get_or (ti_difficulty tp) 1) w"
  have u: "topic_unique (graph (snd ?r))"
    using Cons.prems by (rule create_topic_topic_unique)
  show ?case
  proof (cases ?r)
    case (Pair res w')
    with u Cons.IH [of w'] show ?thesis
      by (cases res) simp_all
  qed
qed

lemma load_subjects_topic_unique:
  "topic_unique (graph w) \<Longrightarrow> topic_unique (graph (snd (load_subjects syllabus_data w)))"
proof (induction syllabus_data arbitrary: w)
  case Nil
  then show ?case by simp
next
  case (Cons item rest)
  obtain name info where item: "item = (name, info)" by (cases item)
  let ?r = "create_subject name (get_or (si_description info) []) w"
  have u: "topic_unique (graph (snd ?r))"
    using Cons.prems by (rule create_subject_topic_unique)
  show ?case
  proof (cases ?r)
    case (Pair res w1)
    show ?thesis
    proof (cases res)
      case (Inl e)
      with Pair u item show ?thesis by simp
    next
      case (Inr x)
      let ?t = "load_topics name (get_or (si_topics info) []) w1"
      have u2: "topic_unique (graph (snd ?t))"
        using u Pair by (simp add: load_topics_topic_unique)
      show ?thesis
      proof (cases ?t)
        case (Pair res2 w2)
        with u2 Cons.IH [of w2] item \<open>?r = (res, w1)\<close> Inr show ?thesis
          by (cases res2) simp_all
      qed
    qed
  qed
qed

lemma create_question_topic_unique:
  "topic_unique (graph w) \<Longrightarrow> topic_unique (graph (snd (create_question emb qd w)))"
  using topic_unique_cong [OF create_question_topics [of emb qd w]] by simp

lemma get_node_count_graph: "graph (snd (get_node_count l w)) = graph w"
  by (simp add: get_node_count_def run_query_def count_query_def Let_def)

lemma get_graph_statistics_graph: "graph (snd (get_graph_statistics w)) = graph w"
proof -
  have step: "graph (snd (case get_node_count l v of
                   (Inl e, w') \<Rightarrow> (Inl e, w') | (Inr n, w') \<Rightarrow> f n w')) = g"
    if "graph v = g" and "\<And>n w'. graph w' = g \<Longrightarrow> graph (snd (f n w')) = g" for l v f g
  proof (cases "get_node_count l v")
    case (Pair res w')
    have "graph w' = g"
      using get_node_count_graph [of l v] Pair that(1) by simp
    with Pair that show ?thesis by (cases res) simp_all
  qed
  show ?thesis
    unfolding get_graph_statistics_def
    by (rule step, simp, rule step, assumption, rule step, assumption, rule step, assumption,
        rule step, assumption, simp)
qed

lemma load_syllabus_topic_unique:
  "topic_unique (graph w) \<Longrightarrow> topic_unique (graph (snd (load_syllabus syllabus_data w)))"
proof -
  assume u: "topic_unique (graph w)"
  show ?thesis
  proof (cases "load_subjects syllabus_data w")
    case (Pair res w1)
    have "topic_unique (graph w1)"
      using load_subjects_topic_unique [OF u, of syllabus_data] Pair by simp
    with Pair show ?thesis
      by (cases res) (simp_all add: load_syllabus_def get_graph_statistics_graph)
  qed
qed

lemma load_pyqs_loop_topic_unique:
  "topic_unique (graph w) \<Longrightarrow> topic_unique (graph (snd (load_pyqs_loop emb qs s f w)))"
proof (induction qs arbitrary: s f w)
  case Nil
  then show ?case by simp
next
  case (Cons qd qs)
  have u: "topic_unique (graph (snd (create_question emb qd w)))"
    using Cons.prems by (rule create_question_topic_unique)
  show ?case
  proof (cases "create_question emb qd w")
    case (Pair res w')
    with u Cons.IH [of w'] show ?thesis
      by (cases res) (auto split: option.splits)
  qed
qed

lemma load_pyqs_topic_unique:
  "topic_unique (graph w) \<Longrightarrow> topic_unique (graph (snd (load_pyqs emb qs w)))"
  by (simp add: load_pyqs_def load_pyqs_loop_topic_unique)

subsection \<open>A well-formed store matches each attempt once\<close>

lemma distinct_filter_fst:
  "distinct (map fst xs) \<Longrightarrow> distinct (map fst (filter P xs))"
  by (induction xs) auto

lemma filter_id_le1:
  assumes "distinct (map fst xs)"
  shows "filter (\<lambda>(i, n). i = b) xs = [] \<or> (\<exists>n. filter (\<lambda>(i, n). i = b) xs = [(b, n)])"
  using assms
proof (induction xs)
  case Nil
  then show ?case by simp
next
  case (Cons x xs)
  obtain i n where x: "x = (i, n)" by (cases x)
  show ?case
  proof (cases "i = b")
    case True
    with Cons.prems x have "filter (\<lambda>(i, n). i = b) xs = []"
      by (auto simp: filter_empty_conv) (metis fst_conv imageI)
    with True x show ?thesis by simp
  next
    case False
    with Cons x show ?thesis by simp
  qed
qed

lemma edge_targets_distinct:
  assumes q: "distinct (map fst qs)" and e: "distinct es"
  shows "distinct (map fst (concat (map (\<lambda>(a, b). if a = tid
              then filter (\<lambda>(qid, q). qid = b) qs else []) es)))"
  using e
proof (induction es)
  case Nil
  then show ?case by simp
next
  case (Cons edge es)
  obtain a b where edge: "edge = (a, b)" by (cases edge)
  let ?f = "\<lambda>(a, b). if a = tid then filter (\<lambda>(qid, q). qid = b) qs else []"
  have ih: "distinct (map fst (concat (map ?f es)))"
    using Cons by simp
  show ?case
  proof (cases "a = tid")
    case False
    with edge ih show ?thesis by simp
  next
    case True
    have notin: "(tid, b) \<notin> set es" using Cons.prems edge True by simp
    have rest: "b \<notin> set (map fst (concat (map ?f es)))"
    proof
      assume "b \<in> set (map fst (concat (map ?f es)))"
      then obtain a' b' n where "(a', b') \<in> set es" "(b, n) \<in> set (?f (a', b'))"
        by auto
      then have "a' = tid \<and> b' = b"
        by (auto split: if_splits)
      with \<open>(a', b') \<in> set es\<close> notin show False by simp
    qed
    from filter_id_le1 [OF q, of b]
    show ?thesis
    proof
      assume "filter (\<lambda>(i, n). i = b) qs = []"
      with True edge ih show ?thesis by simp
    next
      assume "\<exists>n. filter (\<lambda>(i, n). i = b) qs = [(b, n)]"
      then obtain n where "filter (\<lambda>(i, n). i = b) qs = [(b, n)]" by blast
      with True edge ih rest show ?thesis by simp
    qed
  qed
qed

lemma topic_questions_distinct:
  assumes "wf_graph g"
  shows "distinct (map fst (topic_questions subj tname g))"
proof -
  have q: "distinct (map fst (questions g))" and e: "distinct (has_question g)"
    and u: "topic_unique g"
    using assms by (simp_all add: wf_graph_def node_ids_def)
  have "length (match_topic subj tname g) \<le> Suc 0"
    using u by (rule match_topic_le1)
  then consider "match_topic subj tname g = []" | m where "match_topic subj tname g = [m]"
    by (cases "match_topic subj tname g") auto
  then show ?thesis
  proof cases
    case 1
    then show ?thesis by (simp add: topic_questions_def)
  next
    case 2
    obtain tid t where "m = (tid, t)" by (cases m)
    with 2 edge_targets_distinct [OF q e, of tid] show ?thesis
      by (simp add: topic_questions_def)
  qed
qed

lemma pairs_distinct:
  "distinct us \<Longrightarrow> distinct qs \<Longrightarrow> distinct (concat (map (\<lambda>u. map (\<lambda>q. (u, q)) qs) us))"
  by (induction us) (auto simp: distinct_map inj_on_def)

lemma attempt_rows_pairs:
  "attempt_rows subj tname text g =
     concat (map (\<lambda>u. map (\<lambda>q. (u, q))
        (map fst (filter (\<lambda>(qid, q). q_text q = text) (topic_questions subj tname g))))
        (map fst (filter (\<lambda>(i, u). u_id u = ''default_user'') (users g))))"
  by (simp add: attempt_rows_def comp_def case_prod_unfold)

lemma attempt_rows_distinct:
  assumes "wf_graph g"
  shows "distinct (attempt_rows subj tname text g)"
proof -
  have "distinct (map fst (users g))"
    using assms by (simp add: wf_graph_def node_ids_def)
  then have u: "distinct (map fst (filter (\<lambda>(i, u). u_id u = ''default_user'') (users g)))"
    by (rule distinct_filter_fst)
  have q: "distinct (map fst (filter (\<lambda>(qid, q). q_text q = text)
              (topic_questions subj tname g)))"
    using topic_questions_distinct [OF assms] by (rule distinct_filter_fst)
  show ?thesis
    unfolding attempt_rows_pairs using u q by (rule pairs_distinct)
qed

subsection \<open>The operations keep the store well-formed\<close>

lemma wf_graph_empty: "wf_graph empty_graph"
  by (simp add: wf_graph_def node_ids_def topic_unique_def empty_graph_def)

lemma map_fst_set_subject:
  "map fst (subjects (set_subject name d now g)) = map fst (subjects g)"
  by (auto simp: set_subject_def)

lemma map_fst_set_topic:
  "map fst (topics (set_topic subj tname d k now g)) = map fst (topics g)"
  by (auto simp: set_topic_def)

lemma wf_graph_set_subject: "wf_graph g \<Longrightarrow> wf_graph (set_subject name d now g)"
  using map_fst_set_subject [of name d now g]
  by (simp add: wf_graph_def node_ids_def topic_unique_def) (simp add: set_subject_def)

lemma wf_fresh: "wf_graph g \<Longrightarrow> next_id g \<notin> set (node_ids g)"
  by (auto simp: wf_graph_def)

lemma wf_graph_bump:
  assumes "wf_graph g"
    and ids: "set (node_ids g') = insert (next_id g) (set (node_ids g))"
    and dist: "distinct (node_ids g')"
    and nxt: "next_id g' = Suc (next_id g)"
    and tu: "topic_unique g'"
    and hq: "has_question g' = has_question g \<or> (\<exists>t. has_question g' = has_question g @ [(t, next_id g)])"
  shows "wf_graph g'"
proof -
  have b: "\<forall>i \<in> set (node_ids g'). i < next_id g'"
    using assms(1) ids nxt by (auto simp: wf_graph_def less_Suc_eq)
  have e: "\<forall>(a, b) \<in> set (has_question g). b < next_id g" and de: "distinct (has_question g)"
    using assms(1) by (simp_all add: wf_graph_def)
  have d: "distinct (has_question g')"
    using hq de e by auto
  have eb: "\<forall>(a, b) \<in> set (has_question g'). b < next_id g'"
    using hq e nxt by (auto simp: less_Suc_eq)
  show ?thesis
    unfolding wf_graph_def using dist b tu d eb by blast
qed

lemma wf_graph_merge_subject_node:
  assumes "wf_graph g"
  shows "wf_graph (merge_subject_node name g)"
proof (cases "match_subject name g = []")
  case False
  with assms show ?thesis by (simp add: merge_subject_node_def)
next
  case True
  let ?g' = "merge_subject_node name g"
  have f: "next_id g \<notin> set (node_ids g)" using assms by (rule wf_fresh)
  have d0: "distinct (node_ids g)" using assms by (simp add: wf_graph_def)
  have ids: "set (node_ids ?g') = insert (next_id g) (set (node_ids g))"
    using True by (auto simp: merge_subject_node_def node_ids_def)
  have dist: "distinct (node_ids ?g')"
    using True f d0 by (auto simp: merge_subject_node_def node_ids_def)
  have tu: "topic_unique ?g'"
    using assms True by (simp add: wf_graph_def topic_unique_def merge_subject_node_def)
  show ?thesis
    using assms ids dist _ tu
    by (rule wf_graph_bump) (simp_all add: True merge_subject_node_def)
qed

lemma wf_graph_subject_step: "wf_graph g \<Longrightarrow> wf_graph (subject_step name d now g)"
  by (simp add: subject_step_eq wf_graph_set_subject wf_graph_merge_subject_node)

lemma wf_graph_set_topic:
  assumes "wf_graph g"
  shows "wf_graph (set_topic subj tname d k now g)"
proof -
  have "topic_unique (set_topic subj tname d k now g)"
    using assms by (simp add: topic_unique_set_topic wf_graph_def)
  moreover have "node_ids (set_topic subj tname d k now g) = node_ids g"
    using map_fst_set_topic [of subj tname d k now g]
    by (simp add: node_ids_def) (simp add: set_topic_def)
  ultimately show ?thesis
    using assms by (simp add: wf_graph_def) (simp add: set_topic_def)
qed

lemma wf_graph_merge_topic_node:
  assumes "wf_graph g"
  shows "wf_graph (merge_topic_node subj tname g)"
proof -
  have tu: "topic_unique (merge_topic_node subj tname g)"
    using assms by (simp add: topic_unique_merge_topic_node wf_graph_def)
  show ?thesis
  proof (cases "match_topic subj tname g = []")
    case False
    with assms show ?thesis by (simp add: merge_topic_node_def)
  next
    case True
    let ?g' = "merge_topic_node subj tname g"
    have f: "next_id g \<notin> set (node_ids g)" using assms by (rule wf_fresh)
    have d0: "distinct (node_ids g)" using assms by (simp add: wf_graph_def)
    have ids: "set (node_ids ?g') = insert (next_id g) (set (node_ids g))"
      using True by (auto simp: merge_topic_node_def node_ids_def)
    have dist: "distinct (node_ids ?g')"
      using True f d0 by (auto simp: merge_topic_node_def node_ids_def)
    show ?thesis
      using assms ids dist _ tu
      by (rule wf_graph_bump) (simp_all add: True merge_topic_node_def)
  qed
qed

lemma wf_graph_has_topic_update: "wf_graph (g\<lparr>has_topic := es\<rparr>) = wf_graph g"
  by (simp add: wf_graph_def node_ids_def topic_unique_def)

lemma wf_graph_topic_step: "wf_graph g \<Longrightarrow> wf_graph (topic_step subj tname d k now g)"
  by (simp add: topic_step_eq wf_graph_has_topic_update wf_graph_set_topic
        wf_graph_merge_topic_node)

lemma wf_graph_create_question_rows:
  "wf_graph g \<Longrightarrow> wf_graph (snd (create_question_rows q ts g))"
proof (induction ts arbitrary: g)
  case Nil
  then show ?case by simp
next
  case (Cons t ts)
  let ?g1 = "g\<lparr>next_id := Suc (next_id g), questions := questions g @ [(next_id g, q)],
                has_question := has_question g @ [(t, next_id g)]\<rparr>"
  have f: "next_id g \<notin> set (node_ids g)" using Cons.prems by (rule wf_fresh)
  have d0: "distinct (node_ids g)" using Cons.prems by (simp add: wf_graph_def)
  have ids: "set (node_ids ?g1) = insert (next_id g) (set (node_ids g))"
    by (auto simp: node_ids_def)
  have dist: "distinct (node_ids ?g1)"
    using f d0 by (auto simp: node_ids_def)
  have tu: "topic_unique ?g1"
    using Cons.prems by (simp add: wf_graph_def topic_unique_def)
  have "wf_graph ?g1"
    using Cons.prems ids dist _ tu
    by (rule wf_graph_bump) simp_all
  from Cons.IH [OF this] show ?case
    by (simp add: Let_def split_beta)
qed

lemma wf_graph_create_chunk_rows:
  "wf_graph g \<Longrightarrow> wf_graph (snd (create_chunk_rows c ts g))"
proof (induction ts arbitrary: g)
  case Nil
  then show ?case by simp
next
  case (Cons t ts)
  let ?g1 = "g\<lparr>next_id := Suc (next_id g), chunks := chunks g @ [(next_id g, c)],
                explained_by := explained_by g @ [(t, next_id g)]\<rparr>"
  have f: "next_id g \<notin> set (node_ids g)" using Cons.prems by (rule wf_fresh)
  have d0: "distinct (node_ids g)" using Cons.prems by (simp add: wf_graph_def)
  have ids: "set (node_ids ?g1) = insert (next_id g) (set (node_ids g))"
    by (auto simp: node_ids_def)
  have dist: "distinct (node_ids ?g1)"
    using f d0 by (auto simp: node_ids_def)
  have tu: "topic_unique ?g1"
    using Cons.prems by (simp add: wf_graph_def topic_unique_def)
  have "wf_graph ?g1"
    using Cons.prems ids dist _ tu
    by (rule wf_graph_bump) simp_all
  from Cons.IH [OF this] show ?case
    by (simp add: Let_def split_beta)
qed

lemma wf_graph_attempted_update: "wf_graph (g\<lparr>attempted := rels\<rparr>) = wf_graph g"
  by (simp add: wf_graph_def node_ids_def topic_unique_def)

lemma create_subject_wf:
  "wf_graph (graph w) \<Longrightarrow> wf_graph (graph (snd (create_subject name d w)))"
  by (simp add: create_subject_graph wf_graph_subject_step)

lemma create_topic_wf:
  "wf_graph (graph w) \<Longrightarrow> wf_graph (graph (snd (create_topic subj tname d k w)))"
  by (simp add: create_topic_graph wf_graph_topic_step)

lemma create_question_wf:
  "wf_graph (graph w) \<Longrightarrow> wf_graph (graph (snd (create_question emb qd w)))"
  by (simp add: create_question_unfold wf_graph_create_question_rows)

lemma create_chunk_wf:
  "wf_graph (graph w) \<Longrightarrow> wf_graph (graph (snd (create_chunk emb cd w)))"
  by (cases "ch_embedding cd")
     (simp_all add: create_chunk_unfold wf_graph_create_chunk_rows)

lemma ensure_progress_nodes_wf:
  assumes "wf_graph (graph w)"
  shows "wf_graph (graph (snd (ensure_progress_nodes w)))"
proof -
  let ?g = "graph w"
  let ?g' = "?g\<lparr>next_id := Suc (next_id ?g),
                 users := users ?g @ [(next_id ?g, \<lparr>u_id = ''default_user'',
                                                     u_created_at = clock w\<rparr>)]\<rparr>"
  have f: "next_id ?g \<notin> set (node_ids ?g)" using assms by (rule wf_fresh)
  have d0: "distinct (node_ids ?g)" using assms by (simp add: wf_graph_def)
  have ids: "set (node_ids ?g') = insert (next_id ?g) (set (node_ids ?g))"
    by (auto simp: node_ids_def)
  have dist: "distinct (node_ids ?g')"
    using f d0 by (auto simp: node_ids_def)
  have tu: "topic_unique ?g'"
    using assms by (simp add: wf_graph_def topic_unique_def)
  have "wf_graph ?g'"
    using assms ids dist _ tu by (rule wf_graph_bump) simp_all
  then show ?thesis
    using assms
    by (simp add: ensure_progress_nodes_def run_query_def ensure_user_query_def Let_def)
qed

lemma record_attempt_wf:
  "wf_graph (graph w) \<Longrightarrow> wf_graph (graph (record_attempt subj tname text c w))"
  by (simp add: record_attempt_def run_query_def record_attempt_query_def Let_def
        wf_graph_attempted_update)

lemma load_topics_wf:
  "wf_graph (graph w) \<Longrightarrow> wf_graph (graph (snd (load_topics subj tps w)))"
proof (induction tps arbitrary: w)
  case Nil
  then show ?case by simp
next
  case (Cons tp tps)
  let ?r = "create_topic subj (ti_name tp) (get_or (ti_description tp) [])
              (get_or (ti_difficulty tp) 1) w"
  have u: "wf_graph (graph (snd ?r))"
    using Cons.prems by (rule create_topic_wf)
  show ?case
  proof (cases ?r)
    case (Pair res w')
    with u Cons.IH [of w'] show ?thesis
      by (cases res) simp_all
  qed
qed

lemma load_subjects_wf:
  "wf_graph (graph w) \<Longrightarrow> wf_graph (graph (snd (load_subjects syllabus_data w)))"
proof (induction syllabus_data arbitrary: w)
  case Nil
  then show ?case by simp
next
  case (Cons item rest)
  obtain name info where item: "item = (name, info)" by (cases item)
  let ?r = "create_subject name (get_or (si_description info) []) w"
  have u: "wf_graph (graph (snd ?r))"
    using Cons.prems by (rule create_subject_wf)
  show ?case
  proof (cases ?r)
    case (Pair res w1)
    show ?thesis
    proof (cases res)
      case (Inl e)
      with Pair u item show ?thesis by simp
    next
      case (Inr x)
      let ?t = "load_topics name (get_or (si_topics info) []) w1"
      have u2: "wf_graph (graph (snd ?t))"
        using u Pair by (simp add: load_topics_wf)
      show ?thesis
      proof (cases ?t)
        case (Pair res2 w2)
        with u2 Cons.IH [of w2] item \<open>?r = (res, w1)\<close> Inr show ?thesis
          by (cases res2) simp_all
      qed
    qed
  qed
qed

lemma load_syllabus_wf:
  "wf_graph (graph w) \<Longrightarrow> wf_graph (graph (snd (load_syllabus syllabus_data w)))"
proof -
  assume u: "wf_graph (graph w)"
  show ?thesis
  proof (cases "load_subjects syllabus_data w")
    case (Pair res w1)
    have "wf_graph (graph w1)"
      using load_subjects_wf [OF u, of syllabus_data] Pair by simp
    with Pair show ?thesis
      by (cases res) (simp_all add: load_syllabus_def get_graph_statistics_graph)
  qed
qed

lemma load_pyqs_loop_wf:
  "wf_graph (graph w) \<Longrightarrow> wf_graph (graph (snd (load_pyqs_loop emb qs s f w)))"
proof (induction qs arbitrary: s f w)
  case Nil
  then show ?case by simp
next
  case (Cons qd qs)
  have u: "wf_graph (graph (snd (create_question emb qd w)))"
    using Cons.prems by (rule create_question_wf)
  show ?case
  proof (cases "create_question emb qd w")
    case (Pair res w')
    with u Cons.IH [of w'] show ?thesis
      by (cases res) (auto split: option.splits)
  qed
qed

lemma load_pyqs_wf:
  "wf_graph (graph w) \<Longrightarrow> wf_graph (graph (snd (load_pyqs emb qs w)))"
  by (simp add: load_pyqs_def load_pyqs_loop_wf)

lemma wf_graph_topic_unique: "wf_graph g \<Longrightarrow> topic_unique g"
  by (simp add: wf_graph_def)

subsection \<open>Upserting the attempt\<close>

text \<open>
  C8. On a well-formed store, when the backend answers, for every (user, question)
  pair that the query of \<open>record_attempt\<close> matches: with no ATTEMPTED relationship
  between the two, one is
  created with \<open>attempt_count\<close> 1, \<open>correct_count\<close> 1 or 0 by correctness and
  \<open>first_attempt\<close> set; otherwise the existing relationship is kept and updated:
  \<open>attempt_count\<close> goes up by 1, \<open>correct_count\<close> goes up by 1 exactly when the attempt
  is correct, \<open>last_attempt\<close> is set to now, \<open>last_correct\<close> is set to now when the attempt
  is correct, and \<open>first_attempt\<close> stays as it was.
\<close>

theorem record_attempt_upsert:
  assumes "\<not> next_fault w"
    and "wf_graph (graph w)"
    and "key \<in> set (attempt_rows subj tname text (graph w))"
  shows "attempts_of key (attempted (graph (record_attempt subj tname text is_correct w))) =
     (if attempts_of key (attempted (graph w)) = []
      then [\<lparr>first_attempt = Some (clock w), last_attempt = None, attempt_count = 1,
             correct_count = (if is_correct then 1 else 0),
             last_correct = (if is_correct then Some (clock w) else None)\<rparr>]
      else map (\<lambda>a. a\<lparr>last_attempt := Some (clock w),
                         attempt_count := attempt_count a + 1,
                         correct_count := correct_count a + (if is_correct then 1 else 0),
                         last_correct := (if is_correct then Some (clock w) else last_correct a)\<rparr>)
             (attempts_of key (attempted (graph w))))
     \<and> (attempts_of key (attempted (graph w)) \<noteq> [] \<longrightarrow>
          map first_attempt (attempts_of key (attempted (graph (record_attempt subj tname text is_correct w))))
            = map first_attempt (attempts_of key (attempted (graph w))))"
proof -
  have om: "on_match is_correct (clock w) = (\<lambda>a. a\<lparr>last_attempt := Some (clock w),
                         attempt_count := attempt_count a + 1,
                         correct_count := correct_count a + (if is_correct then 1 else 0),
                         last_correct := (if is_correct then Some (clock w) else last_correct a)\<rparr>)"
    by (simp add: on_match_def fun_eq_iff)
  have eq: "attempts_of key (attempted (graph (record_attempt subj tname text is_correct w))) =
       (if attempts_of key (attempted (graph w)) = [] then [on_create is_correct (clock w)]
        else map (on_match is_correct (clock w)) (attempts_of key (attempted (graph w))))"
    using attempts_of_fold_same [OF attempt_rows_distinct [OF assms(2)] assms(3)]
      record_attempt_graph [OF assms(1)] by simp
  have fa: "map first_attempt (map (on_match is_correct (clock w)) xs) = map first_attempt xs" for xs
    by (induction xs) (simp_all add: on_match_def)
  show ?thesis
    unfolding eq using fa by (simp add: on_create_def om [symmetric])
qed

lemma ex_attempt_rows:
  "attempt_rows ''OS'' ''Deadlocks'' ''Q1'' (ex_graph_q\<lparr>attempted := rels\<rparr>) = [(5, 2)]"
  by (simp add: attempt_rows_def topic_questions_def match_topic_def ex_graph_q_def ex_graph_def
        empty_graph_def ex_question_node_def)

lemma ex_first_attempt:
  "record_attempt ''OS'' ''Deadlocks'' ''Q1'' True ex_world_q =
     \<lparr>graph = ex_graph_q\<lparr>attempted := [((5, 2),
          \<lparr>first_attempt = Some 10, last_attempt = None, attempt_count = 1, correct_count = 1,
           last_correct = Some 10\<rparr>)]\<rparr>,
      faults = [], clock = 11, embed_calls = []\<rparr>"
proof -
  have "attempt_rows ''OS'' ''Deadlocks'' ''Q1'' ex_graph_q = [(5, 2)]"
    using ex_attempt_rows [of "attempted ex_graph_q"] by simp
  moreover have "attempted ex_graph_q = []"
    by (simp add: ex_graph_q_def ex_graph_def empty_graph_def)
  ultimately show ?thesis
    by (simp add: record_attempt_def run_query_def record_attempt_query_def Let_def
          next_fault_def ex_world_q_def ex_world_def merge_attempted_def on_create_def)
qed

theorem record_attempt_upsert_witness:
  "wf_graph (graph ex_world_q)
   \<and> attempt_rows ''OS'' ''Deadlocks'' ''Q1'' (graph ex_world_q) = [(5, 2)]
   \<and> attempts_of (5, 2) (attempted (graph ex_world_q)) = []
   \<and> attempts_of (5, 2)
        (attempted (graph (record_attempt ''OS'' ''Deadlocks'' ''Q1'' True ex_world_q)))
      = [\<lparr>first_attempt = Some 10, last_attempt = None, attempt_count = 1, correct_count = 1,
          last_correct = Some 10\<rparr>]
   \<and> attempts_of (5, 2)
        (attempted (graph (record_attempt ''OS'' ''Deadlocks'' ''Q1'' False
           (record_attempt ''OS'' ''Deadlocks'' ''Q1'' True ex_world_q))))
      = [\<lparr>first_attempt = Some 10, last_attempt = Some 11, attempt_count = 2, correct_count = 1,
          last_correct = Some 10\<rparr>]"
proof -
  let ?w1 = "record_attempt ''OS'' ''Deadlocks'' ''Q1'' True ex_world_q"
  have f0: "\<not> next_fault ex_world_q"
    by (simp add: next_fault_def ex_world_q_def ex_world_def)
  have r0: "attempt_rows ''OS'' ''Deadlocks'' ''Q1'' (graph ex_world_q) = [(5, 2)]"
    using ex_attempt_rows [of "attempted ex_graph_q"] by (simp add: ex_world_q_def ex_world_def)
  have a0: "attempts_of (5, 2) (attempted (graph ex_world_q)) = []"
    by (simp add: attempts_of_def ex_world_q_def ex_world_def ex_graph_q_def ex_graph_def
          empty_graph_def)
  have d0: "wf_graph (graph ex_world_q)"
    by (simp add: wf_graph_def node_ids_def topic_unique_def ex_world_q_def ex_world_def
          ex_graph_q_def ex_graph_def empty_graph_def)
  have m0: "(5, 2) \<in> set (attempt_rows ''OS'' ''Deadlocks'' ''Q1'' (graph ex_world_q))"
    by (simp add: r0)
  have c0: "clock ex_world_q = 10"
    by (simp add: ex_world_q_def ex_world_def)
  have f1: "\<not> next_fault ?w1"
    by (simp add: ex_first_attempt next_fault_def)
  have r1: "attempt_rows ''OS'' ''Deadlocks'' ''Q1'' (graph ?w1) = [(5, 2)]"
    by (simp add: ex_first_attempt ex_attempt_rows)
  have d1: "wf_graph (graph ?w1)"
    using d0 by (rule record_attempt_wf)
  have m1: "(5, 2) \<in> set (attempt_rows ''OS'' ''Deadlocks'' ''Q1'' (graph ?w1))"
    by (simp add: r1)
  have c1: "clock ?w1 = 11"
    by (simp add: ex_first_attempt)
  have s1: "attempts_of (5, 2) (attempted (graph ?w1))
      = [\<lparr>first_attempt = Some 10, last_attempt = None, attempt_count = 1, correct_count = 1,
          last_correct = Some 10\<rparr>]"
    using record_attempt_upsert [OF f0 d0 m0, of True] a0 c0 by simp
  have s2: "attempts_of (5, 2)
        (attempted (graph (record_attempt ''OS'' ''Deadlocks'' ''Q1'' False ?w1)))
      = [\<lparr>first_attempt = Some 10, last_attempt = Some 11, attempt_count = 2, correct_count = 1,
          last_correct = Some 10\<rparr>]"
    using record_attempt_upsert [OF f1 d1 m1, of False] s1 c1 by simp
  show ?thesis using d0 r0 a0 s1 s2 by simp
qed

end
